theory Spec2Isabelle
  imports Main "HOL-Library.Monad_Syntax"
begin

unbundle bit_operations_syntax

section \<open>Common C notions\<close>

text \<open>
  The error codes the two files return. \<open>AVERROR(EIO)\<close>, \<open>AVERROR(EINVAL)\<close>,
  \<open>AVERROR(ENOMEM)\<close>, \<open>AVERROR(EFAULT)\<close>, \<open>AVERROR_EOF\<close> and
  \<open>AVERROR_DEMUXER_NOT_FOUND\<close> are negative integers in C; here each is a constructor.
  \<open>Undefined\<close> stands for undefined behaviour of the C program: a read outside an
  array, a null pointer that is dereferenced, a local variable that is read before it was
  assigned.
\<close>

datatype error = EIO | EINVAL | ENOMEM | EFAULT | AVERROR_EOF | AVERROR_DEMUXER_NOT_FOUND
  | Undefined

text \<open>\<open>#define DVD_SECTOR_SIZE 2048\<close> (dvd.c, line 32).\<close>

definition DVD_SECTOR_SIZE :: int where
  "DVD_SECTOR_SIZE = 2048"

text \<open>
  The value of a 64-bit quantity stored into a C \<open>int\<close>: the low 32 bits, read as two's
  complement.
\<close>

definition int32 :: "int \<Rightarrow> int" where
  "int32 x = (x + 2 ^ 31) mod 2 ^ 32 - 2 ^ 31"

text \<open>The values a C \<open>int\<close> can hold.\<close>

definition is_int :: "int \<Rightarrow> bool" where
  "is_int x \<longleftrightarrow> - (2 ^ 31) \<le> x \<and> x < 2 ^ 31"

text \<open>C's \<open>/\<close> on integers truncates towards zero.\<close>

definition c_div :: "int \<Rightarrow> int \<Rightarrow> int" where
  "c_div a b = sgn a * sgn b * (\<bar>a\<bar> div \<bar>b\<bar>)"

text \<open>\<open>xs[i]\<close> on a C array of known extent: outside it the behaviour is undefined.\<close>

definition at_index :: "'a list \<Rightarrow> int \<Rightarrow> 'a option" where
  "at_index xs i = (if 0 \<le> i \<and> i < int (length xs) then Some (xs ! nat i) else None)"

section \<open>The DVD protocol (libavformat/dvd.c)\<close>

subsection \<open>Data read from the disc\<close>

text \<open>
  The IFO structures are declared by libdvdread, whose headers are not part of the
  sources. Each record below has the fields dvd.c reads, under the names dvd.c uses; the
  integers are the values of those fields. The two block constants dvd.c compares
  \<open>block_type\<close> with are declared in the same headers, so they are parameters of the
  model.
\<close>

record dvdread_consts =
  BLOCK_TYPE_ANGLE_BLOCK :: int
  BLOCK_MODE_LAST_CELL :: int

record cell_playback_t =
  block_type :: int
  first_sector :: int
  last_sector :: int

record dvd_time_t =
  hour :: int
  minute :: int
  second :: int

record pgc_t =
  nr_of_cells :: int
  playback_time :: dvd_time_t
  program_map :: "int list"
  cell_playback :: "cell_playback_t list"

record ptt_info_t =
  pgcn :: int
  pgn :: int

text \<open>\<open>vts_ifo->vts_ptt_srpt->title[i].ptt[j]\<close>: one list of parts per title.\<close>

record title_info_t =
  nr_of_angles :: int
  nr_of_ptts :: int
  title_set_nr :: int
  vts_ttn :: int

record tt_srpt_t =
  nr_of_srpts :: int
  title :: "title_info_t list"

text \<open>The video manager IFO (\<open>ifoOpen(dvd, 0)\<close>).\<close>

record vmg_ifo_t =
  nr_of_vtss :: int
  tt_srpt :: tt_srpt_t

text \<open>
  A title set IFO (\<open>ifoOpen(dvd, n)\<close>, \<open>n \<ge> 1\<close>). \<open>vtsi_mat\<close> tells whether that
  pointer is non-null; \<open>vts_pgcit\<close> is \<open>None\<close> for a null pointer and otherwise the
  chains \<open>pgci_srp[i].pgc\<close>; \<open>vts_ptt_srpt\<close> is the table \<open>title[i].ptt\<close>.
\<close>

record vts_ifo_t =
  vtsi_mat :: bool
  vts_pgcit :: "pgc_t list option"
  vts_ptt_srpt :: "ptt_info_t list list"

text \<open>
  What libdvdread answers for one disc: whether \<open>DVDOpen2\<close> succeeds, what
  \<open>ifoOpen\<close> returns for title set 0 (the video manager) and for the others, and
  whether \<open>DVDOpenFile\<close> succeeds for the VOBs of a title set.
\<close>

record dvd_disc =
  DVDOpen2 :: bool
  ifoOpen_vmg :: "vmg_ifo_t option"
  ifoOpen :: "int \<Rightarrow> vts_ifo_t option"
  DVDOpenFile :: "int \<Rightarrow> bool"

subsection \<open>The protocol context\<close>

text \<open>
  \<open>DvdProtocolContext\<close> (dvd.c, lines 34-52). \<open>dvd_title_file\<close> holds the number of
  the title set whose VOBs are open; the three IFO pointers are \<open>None\<close> when null.
\<close>

record DvdProtocolContext =
  title_nr :: int
  angle_nr :: int
  dvd_title_file :: "int option"
  vmg_ifo :: "vmg_ifo_t option"
  vts_ifo :: "vts_ifo_t option"
  current_pgc :: "pgc_t option"
  current_cell :: int
  start_sector :: int
  current_sector :: int
  end_sector :: int

subsection \<open>\<open>ff_dvd_get_next_cell\<close> (lines 108-128)\<close>

text \<open>
  The \<open>while\<close> loop of lines 115-118: \<open>next_cell\<close> is incremented as long as it is
  below \<open>nr_of_cells\<close> and the cell there has a \<open>block_type\<close> other than
  \<open>BLOCK_MODE_LAST_CELL\<close>.
\<close>

function fast_forward :: "dvdread_consts \<Rightarrow> pgc_t \<Rightarrow> int \<Rightarrow> int option" where
  "fast_forward K pgc next_cell =
     (if next_cell < nr_of_cells pgc then
        (case at_index (cell_playback pgc) next_cell of
           None \<Rightarrow> None
         | Some c \<Rightarrow>
             if block_type c \<noteq> BLOCK_MODE_LAST_CELL K
             then fast_forward K pgc (next_cell + 1)
             else Some next_cell)
      else Some next_cell)"
  by pat_completeness auto
termination
  by (relation "measure (\<lambda>(K, pgc, next_cell). nat (nr_of_cells pgc - next_cell))") auto

declare fast_forward.simps [simp del]

text \<open>
  The function returns the next cell index, or \<open>-1\<close>, and it changes
  \<open>ctx->current_cell\<close> when the current cell is in an angle block (line 114). A cell
  index that is read lies inside the cell array and the angle option is at most 256, so
  the additions on cell indices stay far inside the range of \<open>int\<close>.
\<close>

definition ff_dvd_get_next_cell ::
  "dvdread_consts \<Rightarrow> DvdProtocolContext \<Rightarrow> (DvdProtocolContext \<times> int) option" where
  "ff_dvd_get_next_cell K ctx =
     (case current_pgc ctx of
        None \<Rightarrow> None
      | Some pgc \<Rightarrow>
          (case at_index (cell_playback pgc) (current_cell ctx) of
             None \<Rightarrow> None
           | Some c \<Rightarrow>
               (case (if block_type c = BLOCK_TYPE_ANGLE_BLOCK K
                      then map_option
                             (Pair (ctx\<lparr>current_cell := current_cell ctx + angle_nr ctx\<rparr>))
                             (fast_forward K pgc (current_cell ctx))
                      else Some (ctx, current_cell ctx)) of
                  None \<Rightarrow> None
                | Some (ctx', next_cell) \<Rightarrow>
                    if next_cell + 1 \<ge> nr_of_cells pgc then Some (ctx', - 1)
                    else Some (ctx', next_cell + 1))))"

subsection \<open>\<open>dvd_url_read\<close> (lines 278-305)\<close>

text \<open>
  Lines 284-294: when the current cell is used up, move the cursor to the next cell, or
  stop with \<open>AVERROR_EOF\<close> when there is none.
\<close>

definition dvd_enter_next_cell ::
  "dvdread_consts \<Rightarrow> DvdProtocolContext \<Rightarrow> DvdProtocolContext \<times> error option" where
  "dvd_enter_next_cell K ctx =
     (if current_sector ctx \<ge> end_sector ctx then
        (case ff_dvd_get_next_cell K ctx of
           None \<Rightarrow> (ctx, Some Undefined)
         | Some (ctx1, next_cell) \<Rightarrow>
             if next_cell < 0 then (ctx1, Some AVERROR_EOF)
             else
               (case current_pgc ctx1 of
                  None \<Rightarrow> (ctx1, Some Undefined)
                | Some pgc \<Rightarrow>
                    (case at_index (cell_playback pgc) next_cell of
                       None \<Rightarrow> (ctx1, Some Undefined)
                     | Some c \<Rightarrow>
                         (ctx1\<lparr>current_cell := next_cell,
                               start_sector := first_sector c,
                               end_sector := last_sector c,
                               current_sector := first_sector c\<rparr>, None))))
      else (ctx, None))"

text \<open>
  The read itself. \<open>DVDReadBlocks\<close> is libdvdread's function, applied to the open title
  file: given the sector offset and the number of blocks asked for, it answers the number
  of blocks it has read (a \<open>ssize_t\<close>). The result is the context after the call and
  either an error or the byte count returned at line 304; \<open>buf_size\<close> is the
  parameter \<open>size\<close>. \<open>blocks_got\<close> is 64 bits wide;
  \<open>current_sector\<close> and the returned value are C \<open>int\<close>s.
\<close>

definition dvd_url_read ::
  "dvdread_consts \<Rightarrow> (int \<Rightarrow> int \<Rightarrow> int) \<Rightarrow> DvdProtocolContext \<Rightarrow> int
     \<Rightarrow> DvdProtocolContext \<times> (error + int)" where
  "dvd_url_read K DVDReadBlocks ctx buf_size =
     (let num_blocks = c_div buf_size DVD_SECTOR_SIZE in
      case dvd_enter_next_cell K ctx of
        (ctx1, Some e) \<Rightarrow> (ctx1, Inl e)
      | (ctx1, None) \<Rightarrow>
          (let blocks_got = DVDReadBlocks (current_sector ctx1) num_blocks in
           if blocks_got \<le> 0 then (ctx1, Inl EIO)
           else (ctx1\<lparr>current_sector := int32 (current_sector ctx1 + blocks_got)\<rparr>,
                 if blocks_got \<le> 0 then Inl AVERROR_EOF
                 else Inr (int32 (blocks_got * DVD_SECTOR_SIZE)))))"

subsection \<open>\<open>ff_dvd_get_title_set_length\<close> (lines 54-57 and 76-86)\<close>

definition bcd2int :: "int \<Rightarrow> int" where
  "bcd2int bcd = drop_bit 4 (bcd AND 0xf0) * 10 + (bcd AND 0x0f)"

text \<open>
  Every array the function indexes is a list here, so that an index outside the table is
  \<open>None\<close>. The time fields are bytes on the disc, so the product stays far below the
  range of \<open>int\<close>.
\<close>

definition ff_dvd_get_title_set_length :: "vts_ifo_t \<Rightarrow> tt_srpt_t \<Rightarrow> int \<Rightarrow> int option" where
  "ff_dvd_get_title_set_length vts tt t_nr = do {
     ti \<leftarrow> at_index (title tt) t_nr;
     let vts_title_number = vts_ttn ti - 1;
     ptts \<leftarrow> at_index (vts_ptt_srpt vts) vts_title_number;
     ptt \<leftarrow> at_index ptts 0;
     let pgc_number = pgcn ptt;
     chains \<leftarrow> vts_pgcit vts;
     pgc \<leftarrow> at_index chains (pgc_number - 1);
     let t = playback_time pgc;
     Some ((bcd2int (hour t) * 3600 + bcd2int (minute t) * 60 + bcd2int (second t)) * 1000)
   }"

subsection \<open>\<open>ff_dvd_set_program_chain_info\<close> (lines 88-106)\<close>

definition ff_dvd_set_program_chain_info ::
  "dvdread_consts \<Rightarrow> DvdProtocolContext \<Rightarrow> int \<Rightarrow> int \<Rightarrow> DvdProtocolContext option" where
  "ff_dvd_set_program_chain_info K ctx t_nr ptt_nr = do {
     vmg \<leftarrow> vmg_ifo ctx;
     ti \<leftarrow> at_index (title (tt_srpt vmg)) t_nr;
     let vts_title_number = vts_ttn ti - 1;
     vts \<leftarrow> vts_ifo ctx;
     ptts \<leftarrow> at_index (vts_ptt_srpt vts) vts_title_number;
     ptt \<leftarrow> at_index ptts ptt_nr;
     let pgc_id = pgcn ptt;
     let prog = pgn ptt;
     chains \<leftarrow> vts_pgcit vts;
     pgc \<leftarrow> at_index chains (pgc_id - 1);
     entry \<leftarrow> at_index (program_map pgc) (prog - 1);
     let ctx = ctx\<lparr>current_pgc := Some pgc, current_cell := entry - 1\<rparr>;
     c0 \<leftarrow> at_index (cell_playback pgc) (current_cell ctx);
     let ctx = (if block_type c0 = BLOCK_TYPE_ANGLE_BLOCK K
                then ctx\<lparr>current_cell := current_cell ctx + angle_nr ctx\<rparr> else ctx);
     c \<leftarrow> at_index (cell_playback pgc) (current_cell ctx);
     Some (ctx\<lparr>current_sector := first_sector c, start_sector := first_sector c,
               end_sector := last_sector c\<rparr>)
   }"

subsection \<open>\<open>dvd_url_open\<close> (lines 140-276)\<close>

text \<open>A \<open>for\<close> loop whose body may return from the function with an error.\<close>

fun for_each :: "('i \<Rightarrow> 's \<Rightarrow> error + 's) \<Rightarrow> 'i list \<Rightarrow> 's \<Rightarrow> error + 's" where
  "for_each body [] st = Inr st"
| "for_each body (i # is) st =
     (case body i st of Inl e \<Rightarrow> Inl e | Inr st' \<Rightarrow> for_each body is st')"

text \<open>
  Lines 192-219 of the loop body, for title \<open>t_nr\<close> while title set \<open>vts_nr\<close> is
  scanned: \<open>Inr None\<close> is one of the three \<open>continue\<close>s, \<open>Inr (Some ms)\<close> the
  length of the title in milliseconds, \<open>Inl\<close> a return from \<open>dvd_url_open\<close>.
\<close>

definition dvd_title_length ::
  "dvd_disc \<Rightarrow> tt_srpt_t \<Rightarrow> int \<Rightarrow> int \<Rightarrow> int \<Rightarrow> error + int option" where
  "dvd_title_length disc tt num_titles vts_nr t_nr =
     (case at_index (title tt) t_nr of
        None \<Rightarrow> Inl Undefined
      | Some ti \<Rightarrow>
          if title_set_nr ti \<noteq> vts_nr then Inr None
          else
            (case ifoOpen disc vts_nr of
               None \<Rightarrow> Inl ENOMEM
             | Some vts \<Rightarrow>
                 if \<not> vtsi_mat vts \<or> vts_pgcit vts = None then Inr None
                 else if vts_ttn ti < 1 \<or> vts_ttn ti > num_titles then Inr None
                 else
                   (case ff_dvd_get_title_set_length vts tt t_nr of
                      None \<Rightarrow> Inl Undefined
                    | Some ms \<Rightarrow> Inr (Some ms))))"

text \<open>
  Lines 227-230. The state of the scan is \<open>longest_title_nr\<close>, which is \<open>None\<close> as
  long as the variable has not been assigned, and \<open>longest_title_length_ms\<close>.
\<close>

definition dvd_longest_update :: "int option \<times> int \<Rightarrow> int \<Rightarrow> int \<Rightarrow> int option \<times> int" where
  "dvd_longest_update st t_nr title_length_ms =
     (if snd st \<le> title_length_ms then (Some t_nr, title_length_ms) else st)"

definition dvd_scan_title ::
  "dvd_disc \<Rightarrow> tt_srpt_t \<Rightarrow> int \<Rightarrow> int \<Rightarrow> int \<Rightarrow> int option \<times> int
     \<Rightarrow> error + int option \<times> int" where
  "dvd_scan_title disc tt num_titles vts_nr t_nr st =
     (case dvd_title_length disc tt num_titles vts_nr t_nr of
        Inl e \<Rightarrow> Inl e
      | Inr None \<Rightarrow> Inr st
      | Inr (Some ms) \<Rightarrow> Inr (dvd_longest_update st t_nr ms))"

text \<open>The two nested loops of lines 187-234.\<close>

definition dvd_scan_titles ::
  "dvd_disc \<Rightarrow> tt_srpt_t \<Rightarrow> int \<Rightarrow> int \<Rightarrow> error + int option \<times> int" where
  "dvd_scan_titles disc tt num_vts num_titles =
     for_each
       (\<lambda>vts_nr. for_each (dvd_scan_title disc tt num_titles vts_nr) [0..num_titles - 1])
       [1..num_vts] (None, 0)"

text \<open>
  Lines 251-255: the condition under which \<open>incorrect angle selected\<close> is logged. The
  branch holds the \<open>av_log\<close> call and nothing else, so it does not appear in
  \<open>dvd_url_open\<close> below.
\<close>

definition dvd_incorrect_angle :: "DvdProtocolContext \<Rightarrow> title_info_t \<Rightarrow> bool" where
  "dvd_incorrect_angle ctx ti \<longleftrightarrow> angle_nr ctx > 0 \<and> angle_nr ctx \<ge> nr_of_angles ti"

definition dvd_url_open ::
  "dvdread_consts \<Rightarrow> dvd_disc \<Rightarrow> DvdProtocolContext \<Rightarrow> error + DvdProtocolContext" where
  "dvd_url_open K disc ctx0 =
     (let ctx = ctx0\<lparr>vmg_ifo := None, vts_ifo := None\<rparr> in
      if \<not> DVDOpen2 disc then Inl EIO
      else
        (case ifoOpen_vmg disc of
           None \<Rightarrow> Inl EIO
         | Some vmg \<Rightarrow>
             (let num_vts = nr_of_vtss vmg;
                  num_titles = nr_of_srpts (tt_srpt vmg);
                  tt = tt_srpt vmg
              in
              if title_nr ctx \<ge> num_titles then Inl EINVAL
              else
                (case dvd_scan_titles disc tt num_vts num_titles of
                   Inl e \<Rightarrow> Inl e
                 | Inr (longest_title_nr, longest_title_length_ms) \<Rightarrow>
                     (case (if title_nr ctx < 0
                            then map_option (\<lambda>t. ctx\<lparr>title_nr := t\<rparr>) longest_title_nr
                            else Some ctx) of
                        None \<Rightarrow> Inl Undefined
                      | Some ctx \<Rightarrow>
                          (case at_index (title tt) (title_nr ctx) of
                             None \<Rightarrow> Inl Undefined
                           | Some ti \<Rightarrow>
                               if vts_ttn ti < 1 \<or> vts_ttn ti > num_titles then Inl EIO
                               else
                                 (let ts_nr = title_set_nr ti in
                                  case ifoOpen disc ts_nr of
                                    None \<Rightarrow> Inl ENOMEM
                                  | Some vts \<Rightarrow>
                                      if \<not> DVDOpenFile disc ts_nr then Inl EIO
                                      else
                                        (case ff_dvd_set_program_chain_info K
                                                (ctx\<lparr>dvd_title_file := Some ts_nr,
                                                     vmg_ifo := Some vmg,
                                                     vts_ifo := Some vts\<rparr>)
                                                (title_nr ctx) 0 of
                                           None \<Rightarrow> Inl Undefined
                                         | Some ctx' \<Rightarrow> Inr ctx'))))))))"

section \<open>The Blu-ray demuxer (libavformat/bluraydec.c)\<close>

subsection \<open>\<open>bluray_seek_bd\<close> (lines 85-105)\<close>

text \<open>
  The \<open>whence\<close> constants come from \<open>stdio.h\<close> and from avio.h, which are not part of
  the sources: they are parameters. \<open>'bd\<close> is the state behind a \<open>BLURAY *\<close> handle;
  \<open>bd_seek\<close> and \<open>bd_get_title_size\<close> are libbluray's, the first of which moves the
  handle.
\<close>

record whence_consts =
  SEEK_SET :: int
  SEEK_CUR :: int
  SEEK_END :: int
  AVSEEK_SIZE :: int

record 'bd bd_stream_lib =
  bd_seek :: "'bd \<Rightarrow> int \<Rightarrow> 'bd \<times> int"
  bd_get_title_size :: "'bd \<Rightarrow> int"

text \<open>
  \<open>BlurayDemuxContext\<close> (lines 33-48), without the nested demuxer and its buffer.
\<close>

record 'bd BlurayDemuxContext =
  bd :: "'bd option"
  title :: int
  min_title_length :: int

text \<open>
  \<open>opaque\<close> is \<open>None\<close> for a null pointer. The result is the context after the call
  and the value returned.
\<close>

definition bluray_seek_bd ::
  "whence_consts \<Rightarrow> 'bd bd_stream_lib \<Rightarrow> 'bd BlurayDemuxContext option \<Rightarrow> int \<Rightarrow> int
     \<Rightarrow> 'bd BlurayDemuxContext option \<times> (error + int)" where
  "bluray_seek_bd W L opaque offset whence =
     (case opaque of
        None \<Rightarrow> (opaque, Inl EFAULT)
      | Some ctx \<Rightarrow>
          (case bd ctx of
             None \<Rightarrow> (opaque, Inl EFAULT)
           | Some h \<Rightarrow>
               if whence = SEEK_SET W \<or> whence = SEEK_CUR W \<or> whence = SEEK_END W
               then (case bd_seek L h offset of
                       (h', pos) \<Rightarrow> (Some (ctx\<lparr>bd := Some h'\<rparr>), Inr pos))
               else if whence = AVSEEK_SIZE W
               then (opaque, Inr (bd_get_title_size L h))
               else (opaque, Inl EINVAL)))"

subsection \<open>\<open>bluray_read_header\<close>, lines 130-221\<close>

record BLURAY_TITLE_INFO =
  idx :: int
  playlist :: int
  duration :: int
  chapter_count :: int

text \<open>
  What the calls of lines 145-218 answer: whether \<open>avformat_alloc_context\<close> and
  \<open>av_find_input_format("mpegts")\<close> return something, the handle \<open>bd_init\<close> returns,
  and the results of the libbluray calls on that handle.
\<close>

record 'bd bluray_disc =
  avformat_alloc_context :: bool
  av_find_input_format :: bool
  bd_init :: "'bd option"
  bd_open_stream :: int
  bd_get_titles :: int
  bd_get_main_title :: int
  bd_get_title_info :: "int \<Rightarrow> BLURAY_TITLE_INFO option"
  bd_select_title :: "int \<Rightarrow> int"
  bd_select_playlist :: "int \<Rightarrow> int"

text \<open>
  Lines 179-195. The state is \<open>longest_title\<close>, \<open>None\<close> while unassigned, and
  \<open>pls_max_duration\<close>. \<open>bd_get_title_info\<close> returning null is dereferenced at line 181.
\<close>

definition bluray_scan_title ::
  "'bd bluray_disc \<Rightarrow> int \<Rightarrow> int option \<times> int \<Rightarrow> error + int option \<times> int" where
  "bluray_scan_title disc i st =
     (case bd_get_title_info disc i of
        None \<Rightarrow> Inl Undefined
      | Some info \<Rightarrow>
          if snd st < duration info then Inr (Some (idx info), duration info) else Inr st)"

text \<open>
  The function up to the selection of the playlist. \<open>Inr ctx\<close> is the context with which
  line 223 is reached; the rest of the function (duration, chapters, stream table, the
  nested transport stream demuxer) does not assign \<open>ctx->title\<close>.
\<close>

definition bluray_read_header ::
  "'bd bluray_disc \<Rightarrow> 'bd BlurayDemuxContext \<Rightarrow> error + 'bd BlurayDemuxContext" where
  "bluray_read_header disc ctx0 =
     (if \<not> avformat_alloc_context disc then Inl ENOMEM
      else if \<not> av_find_input_format disc then Inl AVERROR_DEMUXER_NOT_FOUND
      else
        (let ctx = ctx0\<lparr>bd := bd_init disc\<rparr> in
         if bd_open_stream disc = 0 then Inl EIO
         else
           (let num_title_idx = bd_get_titles disc in
            if num_title_idx < 1 then Inl EIO
            else
              (let main_title = bd_get_main_title disc in
               case for_each (bluray_scan_title disc) [0..num_title_idx - 1] (None, 0) of
                 Inl e \<Rightarrow> Inl e
               | Inr (longest_title, pls_max_duration) \<Rightarrow>
                   (case (if title ctx < 0
                          then (if main_title \<ge> 0 then Some (ctx\<lparr>title := main_title\<rparr>)
                                else map_option (\<lambda>t. ctx\<lparr>title := t\<rparr>) longest_title)
                          else Some ctx) of
                      None \<Rightarrow> Inl Undefined
                    | Some ctx \<Rightarrow>
                        if bd_select_title disc (title ctx) \<le> 0 then Inl EIO
                        else
                          (case bd_get_title_info disc (title ctx) of
                             None \<Rightarrow> Inl Undefined
                           | Some info \<Rightarrow>
                               if bd_select_playlist disc (playlist info) \<le> 0 then Inl EIO
                               else Inr ctx))))))"

section \<open>Notions used to state the properties\<close>

subsection \<open>Cell traversal\<close>

text \<open>
  The index of the first cell at or after \<open>i\<close> whose \<open>block_type\<close> is
  \<open>BLOCK_MODE_LAST_CELL\<close>, or the number of cells when there is none.
\<close>

definition block_last_cell :: "dvdread_consts \<Rightarrow> cell_playback_t list \<Rightarrow> nat \<Rightarrow> nat" where
  "block_last_cell K cells i =
     i + length (takeWhile (\<lambda>c. block_type c \<noteq> BLOCK_MODE_LAST_CELL K) (drop i cells))"

text \<open>
  The cells that successive reads enter, starting at the current cell: lines 285-290 of
  \<open>dvd_url_read\<close> call \<open>ff_dvd_get_next_cell\<close> and store its result in
  \<open>ctx->current_cell\<close> until the result is negative. The walk is \<open>None\<close> when
  the fuel runs out first.
\<close>

fun dvd_cell_walk :: "nat \<Rightarrow> dvdread_consts \<Rightarrow> DvdProtocolContext \<Rightarrow> int list option" where
  "dvd_cell_walk 0 K ctx = None"
| "dvd_cell_walk (Suc fuel) K ctx =
     (case ff_dvd_get_next_cell K ctx of
        None \<Rightarrow> None
      | Some (ctx', nxt) \<Rightarrow>
          if nxt < 0 then Some [current_cell ctx]
          else map_option ((#) (current_cell ctx))
                 (dvd_cell_walk fuel K (ctx'\<lparr>current_cell := nxt\<rparr>)))"

subsection \<open>Example discs\<close>

text \<open>
  The values libdvdread's header gives the two constants, and the chain of the
  specification's example followed by one more cell: A (sectors 0-99, no block), B
  (100-149, angle block), C (150-199, marked as the last cell of the block), D (200-299,
  no block). Program 1 starts at A, program 2 at B, program 3 at D.
\<close>

definition ex_consts :: dvdread_consts where
  "ex_consts = \<lparr>BLOCK_TYPE_ANGLE_BLOCK = 1, BLOCK_MODE_LAST_CELL = 3\<rparr>"

definition ex_pgc :: pgc_t where
  "ex_pgc =
     \<lparr>nr_of_cells = 4,
      playback_time = \<lparr>hour = 0x01, minute = 0x30, second = 0x00\<rparr>,
      program_map = [1, 2, 4],
      cell_playback =
        [\<lparr>block_type = 0, first_sector = 0, last_sector = 99\<rparr>,
         \<lparr>block_type = 1, first_sector = 100, last_sector = 149\<rparr>,
         \<lparr>block_type = 3, first_sector = 150, last_sector = 199\<rparr>,
         \<lparr>block_type = 0, first_sector = 200, last_sector = 299\<rparr>]\<rparr>"

text \<open>A chain of two cells without any block.\<close>

definition ex_plain_pgc :: pgc_t where
  "ex_plain_pgc =
     \<lparr>nr_of_cells = 2,
      playback_time = \<lparr>hour = 0x00, minute = 0x45, second = 0x00\<rparr>,
      program_map = [1],
      cell_playback =
        [\<lparr>block_type = 0, first_sector = 0, last_sector = 99\<rparr>,
         \<lparr>block_type = 0, first_sector = 100, last_sector = 199\<rparr>]\<rparr>"

text \<open>A cursor on cell \<open>c\<close> of chain \<open>pgc\<close>, at sector \<open>s\<close> of the range \<open>[a, b]\<close>.\<close>

definition ex_cursor :: "pgc_t \<Rightarrow> int \<Rightarrow> int \<Rightarrow> int \<Rightarrow> int \<Rightarrow> DvdProtocolContext" where
  "ex_cursor pgc c a s b =
     \<lparr>title_nr = 0, angle_nr = 0, dvd_title_file = Some 1, vmg_ifo = None, vts_ifo = None,
      current_pgc = Some pgc, current_cell = c,
      start_sector = a, current_sector = s, end_sector = b\<rparr>"

subsection \<open>Reading\<close>

text \<open>
  The sector at which \<open>dvd_url_read\<close> issues its call of \<open>DVDReadBlocks\<close>: the
  current sector once lines 284-294 have run.
\<close>

definition read_offset :: "dvdread_consts \<Rightarrow> DvdProtocolContext \<Rightarrow> int" where
  "read_offset K ctx = current_sector (fst (dvd_enter_next_cell K ctx))"

text \<open>
  The number of sectors delivered from the current cell after a read that returned \<open>r\<close>
  bytes, when \<open>d\<close> sectors of the cell had been delivered before it. A read that finds
  its cell used up enters the next cell, of which nothing has been delivered yet.
\<close>

definition sectors_delivered :: "DvdProtocolContext \<Rightarrow> int \<Rightarrow> int \<Rightarrow> int" where
  "sectors_delivered ctx d r =
     (if current_sector ctx \<ge> end_sector ctx then 0 else d) + r div DVD_SECTOR_SIZE"

text \<open>
  What leaving a cell means for the cursor, stated on the chain and not through the code.
  \<open>next_cell_index\<close> is the index of the cell that follows cell \<open>i\<close>: the one after
  \<open>i\<close>, or, when \<open>i\<close> is in an angle block, the one after the first cell from \<open>i\<close>
  on that carries the last-cell marker. \<open>leave_cell\<close> is the change line 114 makes to
  \<open>current_cell\<close> on the way. A title is exhausted when the current cell is used up and
  the index of the next cell is not below the cell count.
\<close>

definition next_cell_index :: "dvdread_consts \<Rightarrow> pgc_t \<Rightarrow> int \<Rightarrow> int" where
  "next_cell_index K pgc i =
     (if block_type (cell_playback pgc ! nat i) = BLOCK_TYPE_ANGLE_BLOCK K
      then int (block_last_cell K (cell_playback pgc) (nat i)) else i) + 1"

definition leave_cell :: "dvdread_consts \<Rightarrow> pgc_t \<Rightarrow> DvdProtocolContext \<Rightarrow> DvdProtocolContext" where
  "leave_cell K pgc ctx =
     (if block_type (cell_playback pgc ! nat (current_cell ctx)) = BLOCK_TYPE_ANGLE_BLOCK K
      then ctx\<lparr>current_cell := current_cell ctx + angle_nr ctx\<rparr> else ctx)"

definition title_exhausted :: "dvdread_consts \<Rightarrow> pgc_t \<Rightarrow> DvdProtocolContext \<Rightarrow> bool" where
  "title_exhausted K pgc ctx \<longleftrightarrow>
     end_sector ctx \<le> current_sector ctx \<and>
     nr_of_cells pgc \<le> next_cell_index K pgc (current_cell ctx)"

text \<open>A title file that holds every block it is asked for.\<close>

definition read_all :: "int \<Rightarrow> int \<Rightarrow> int" where
  "read_all offset block_count = block_count"

subsection \<open>Example discs, continued\<close>

text \<open>
  The context before \<open>dvd_url_open\<close>: the two options, everything else zero.
\<close>

definition ex_options :: "int \<Rightarrow> int \<Rightarrow> DvdProtocolContext" where
  "ex_options t a =
     \<lparr>title_nr = t, angle_nr = a, dvd_title_file = None, vmg_ifo = None, vts_ifo = None,
      current_pgc = None, current_cell = 0,
      start_sector = 0, current_sector = 0, end_sector = 0\<rparr>"

text \<open>
  A disc with one title set and one title of two angles, whose first part is program 2 of
  the example chain, that is cell B.
\<close>

definition ex_vts :: vts_ifo_t where
  "ex_vts = \<lparr>vtsi_mat = True, vts_pgcit = Some [ex_pgc],
             vts_ptt_srpt = [[\<lparr>pgcn = 1, pgn = 2\<rparr>]]\<rparr>"

definition ex_vmg :: vmg_ifo_t where
  "ex_vmg =
     \<lparr>nr_of_vtss = 1,
      tt_srpt = \<lparr>nr_of_srpts = 1,
                 title = [\<lparr>nr_of_angles = 2, nr_of_ptts = 1, title_set_nr = 1, vts_ttn = 1\<rparr>]\<rparr>\<rparr>"

definition ex_disc :: dvd_disc where
  "ex_disc =
     \<lparr>DVDOpen2 = True, ifoOpen_vmg = Some ex_vmg,
      ifoOpen = (\<lambda>n. if n = 1 then Some ex_vts else None),
      DVDOpenFile = (\<lambda>n. n = 1)\<rparr>"

subsection \<open>Example Blu-ray stream\<close>

text \<open>
  The usual values of the \<open>whence\<close> constants, and a title of 4096 bytes whose handle
  is the byte position: \<open>bd_seek\<close> moves to the offset, at most to the end of the title,
  and returns the new position.
\<close>

definition ex_whence :: whence_consts where
  "ex_whence = \<lparr>SEEK_SET = 0, SEEK_CUR = 1, SEEK_END = 2, AVSEEK_SIZE = 0x10000\<rparr>"

definition ex_stream_lib :: "int bd_stream_lib" where
  "ex_stream_lib =
     \<lparr>bd_seek = (\<lambda>pos offset. (min offset 4096, min offset 4096)),
      bd_get_title_size = (\<lambda>pos. 4096)\<rparr>"

definition ex_bluray_ctx :: "int \<Rightarrow> int BlurayDemuxContext" where
  "ex_bluray_ctx t = \<lparr>bd = Some 0, title = t, min_title_length = 180\<rparr>"

subsection \<open>Example discs for the title selection\<close>

text \<open>
  A title set whose one title plays the chain without blocks, and a disc with that title
  set and its one title, of one angle.
\<close>

definition ex_plain_vts :: vts_ifo_t where
  "ex_plain_vts = \<lparr>vtsi_mat = True, vts_pgcit = Some [ex_plain_pgc],
                   vts_ptt_srpt = [[\<lparr>pgcn = 1, pgn = 1\<rparr>]]\<rparr>"

definition ex_plain_disc :: dvd_disc where
  "ex_plain_disc =
     \<lparr>DVDOpen2 = True,
      ifoOpen_vmg = Some
        \<lparr>nr_of_vtss = 1,
         tt_srpt = \<lparr>nr_of_srpts = 1,
                    title = [\<lparr>nr_of_angles = 1, nr_of_ptts = 1, title_set_nr = 1, vts_ttn = 1\<rparr>]\<rparr>\<rparr>,
      ifoOpen = (\<lambda>n. if n = 1 then Some ex_plain_vts else None),
      DVDOpenFile = (\<lambda>n. n = 1)\<rparr>"

text \<open>
  The same title set with two entries in the title table: title 0 refers to track 0 of the
  title set, which does not exist; title 1 refers to track 1.
\<close>

definition ex_dangling_vmg :: vmg_ifo_t where
  "ex_dangling_vmg =
     \<lparr>nr_of_vtss = 1,
      tt_srpt = \<lparr>nr_of_srpts = 2,
                 title = [\<lparr>nr_of_angles = 1, nr_of_ptts = 1, title_set_nr = 1, vts_ttn = 0\<rparr>,
                          \<lparr>nr_of_angles = 1, nr_of_ptts = 1, title_set_nr = 1, vts_ttn = 1\<rparr>]\<rparr>\<rparr>"

definition ex_dangling_disc :: dvd_disc where
  "ex_dangling_disc =
     \<lparr>DVDOpen2 = True, ifoOpen_vmg = Some ex_dangling_vmg,
      ifoOpen = (\<lambda>n. if n = 1 then Some ex_plain_vts else None),
      DVDOpenFile = (\<lambda>n. n = 1)\<rparr>"

text \<open>
  Two title sets of the same content: title 0 is in title set 2 and title 1 in title set 1,
  so both titles last 45 minutes.
\<close>

definition ex_two_sets_vmg :: vmg_ifo_t where
  "ex_two_sets_vmg =
     \<lparr>nr_of_vtss = 2,
      tt_srpt = \<lparr>nr_of_srpts = 2,
                 title = [\<lparr>nr_of_angles = 1, nr_of_ptts = 1, title_set_nr = 2, vts_ttn = 1\<rparr>,
                          \<lparr>nr_of_angles = 1, nr_of_ptts = 1, title_set_nr = 1, vts_ttn = 1\<rparr>]\<rparr>\<rparr>"

definition ex_two_sets_disc :: dvd_disc where
  "ex_two_sets_disc =
     \<lparr>DVDOpen2 = True, ifoOpen_vmg = Some ex_two_sets_vmg,
      ifoOpen = (\<lambda>n. if n = 1 \<or> n = 2 then Some ex_plain_vts else None),
      DVDOpenFile = (\<lambda>n. n = 1 \<or> n = 2)\<rparr>"

subsection \<open>Title selection\<close>

text \<open>
  The titles whose length the scan of \<open>dvd_url_open\<close> computes, each with its length
  in milliseconds, in the order in which the scan reaches them: title sets in ascending
  order, and for each title set the titles that belong to it in ascending order. A title
  that one of the three \<open>continue\<close>s skips is not in the list.
\<close>

definition dvd_candidates :: "dvd_disc \<Rightarrow> tt_srpt_t \<Rightarrow> int \<Rightarrow> int \<Rightarrow> (int \<times> int) list" where
  "dvd_candidates disc tt num_vts num_titles =
     concat (map (\<lambda>vts_nr.
       concat (map (\<lambda>t_nr.
         case dvd_title_length disc tt num_titles vts_nr t_nr of
           Inr (Some ms) \<Rightarrow> [(t_nr, ms)]
         | _ \<Rightarrow> []) [0..num_titles - 1])) [1..num_vts])"

text \<open>
  The titles libbluray lists, each \<open>idx\<close> with its duration, in the order of the loop
  of lines 179-195.
\<close>

definition bluray_candidates :: "'bd bluray_disc \<Rightarrow> (int \<times> int) list" where
  "bluray_candidates disc =
     concat (map (\<lambda>i.
       case bd_get_title_info disc i of
         Some info \<Rightarrow> [(idx info, duration info)]
       | None \<Rightarrow> []) [0..bd_get_titles disc - 1])"

text \<open>
  Position \<open>j\<close> of a list of titles with their lengths holds a title of maximum length,
  and it is the last such position, or the first.
\<close>

definition last_longest :: "(int \<times> int) list \<Rightarrow> nat \<Rightarrow> bool" where
  "last_longest cs j \<longleftrightarrow>
     j < length cs \<and> (\<forall>k < length cs. snd (cs ! k) \<le> snd (cs ! j)) \<and>
     (\<forall>k < length cs. j < k \<longrightarrow> snd (cs ! k) < snd (cs ! j))"

definition first_longest :: "(int \<times> int) list \<Rightarrow> nat \<Rightarrow> bool" where
  "first_longest cs j \<longleftrightarrow>
     j < length cs \<and> (\<forall>k < length cs. snd (cs ! k) \<le> snd (cs ! j)) \<and>
     (\<forall>k < j. snd (cs ! k) < snd (cs ! j))"

text \<open>The title a call of \<open>dvd_url_open\<close> has selected, or its error.\<close>

definition selected_title :: "error + DvdProtocolContext \<Rightarrow> error + int" where
  "selected_title r = map_sum id title_nr r"

subsection \<open>Example Blu-ray discs\<close>

text \<open>
  A disc of two titles of one hour each (durations count 90 kHz ticks), on which libbluray
  selects the titles 0 and 1 and no other, and declares no main title; and the same disc
  with title 1 declared the main title.
\<close>

definition ex_bluray :: "int bluray_disc" where
  "ex_bluray =
     \<lparr>avformat_alloc_context = True, av_find_input_format = True,
      bd_init = Some 0, bd_open_stream = 1, bd_get_titles = 2, bd_get_main_title = - 1,
      bd_get_title_info =
        (\<lambda>i. if i = 0 then Some \<lparr>idx = 0, playlist = 800, duration = 324000000, chapter_count = 12\<rparr>
             else if i = 1 then Some \<lparr>idx = 1, playlist = 801, duration = 324000000, chapter_count = 10\<rparr>
             else None),
      bd_select_title = (\<lambda>t. if 0 \<le> t \<and> t < 2 then 1 else 0),
      bd_select_playlist = (\<lambda>p. if p = 800 \<or> p = 801 then 1 else 0)\<rparr>"

definition ex_bluray_main :: "int bluray_disc" where
  "ex_bluray_main = ex_bluray\<lparr>bd_get_main_title := 1\<rparr>"

section \<open>Properties of the cell traversal\<close>

lemma at_index_Some: "0 \<le> i \<Longrightarrow> i < int (length xs) \<Longrightarrow> at_index xs i = Some (xs ! nat i)"
  by (simp add: at_index_def)

lemma block_last_cell_step:
  assumes "i < length cells"
  shows "block_last_cell K cells i =
           (if block_type (cells ! i) \<noteq> BLOCK_MODE_LAST_CELL K
            then block_last_cell K cells (Suc i) else i)"
proof -
  have "drop i cells = cells ! i # drop (Suc i) cells"
    using assms by (simp add: Cons_nth_drop_Suc)
  then show ?thesis by (simp add: block_last_cell_def)
qed

lemma block_last_cell_end: "length cells \<le> i \<Longrightarrow> block_last_cell K cells i = i"
  by (simp add: block_last_cell_def)

lemma fast_forward_eq:
  assumes "nr_of_cells pgc = int (length (cell_playback pgc))" and "0 \<le> i"
  shows "fast_forward K pgc i = Some (int (block_last_cell K (cell_playback pgc) (nat i)))"
  using assms
proof (induction K pgc i rule: fast_forward.induct)
  case (1 K pgc next_cell)
  show ?case
  proof (cases "next_cell < nr_of_cells pgc")
    case False
    with 1(2,3) show ?thesis
      by (subst fast_forward.simps) (simp add: block_last_cell_end)
  next
    case True
    let ?c = "cell_playback pgc ! nat next_cell"
    have idx: "at_index (cell_playback pgc) next_cell = Some ?c"
      using True 1(2,3) by (simp add: at_index_Some)
    have lt: "nat next_cell < length (cell_playback pgc)"
      using True 1(2,3) by simp
    show ?thesis
    proof (cases "block_type ?c \<noteq> BLOCK_MODE_LAST_CELL K")
      case True
      have "fast_forward K pgc (next_cell + 1)
              = Some (int (block_last_cell K (cell_playback pgc) (nat (next_cell + 1))))"
        using 1(1) [OF \<open>next_cell < nr_of_cells pgc\<close> idx True] 1(2,3) by simp
      moreover have "nat (next_cell + 1) = Suc (nat next_cell)"
        using 1(3) by simp
      ultimately show ?thesis
        using \<open>next_cell < nr_of_cells pgc\<close> idx True lt
        by (subst fast_forward.simps) (simp add: block_last_cell_step)
    next
      case False
      then show ?thesis
        using \<open>next_cell < nr_of_cells pgc\<close> idx lt 1(3)
        by (subst fast_forward.simps) (simp add: block_last_cell_step)
    qed
  qed
qed

lemma block_last_cell_bounds:
  "i \<le> length cells \<Longrightarrow> i \<le> block_last_cell K cells i \<and> block_last_cell K cells i \<le> length cells"
proof -
  assume a: "i \<le> length cells"
  have "length (takeWhile (\<lambda>c. block_type c \<noteq> BLOCK_MODE_LAST_CELL K) (drop i cells))
          \<le> length (drop i cells)"
    by (rule length_takeWhile_le)
  with a show ?thesis by (simp add: block_last_cell_def)
qed

lemma block_last_cell_skips:
  assumes "i \<le> k" and "k < block_last_cell K cells i"
  shows "block_type (cells ! k) \<noteq> BLOCK_MODE_LAST_CELL K"
proof -
  define P :: "cell_playback_t \<Rightarrow> bool" where "P = (\<lambda>c. block_type c \<noteq> BLOCK_MODE_LAST_CELL K)"
  define xs where "xs = drop i cells"
  have m: "k - i < length (takeWhile P xs)"
    using assms by (simp add: block_last_cell_def P_def xs_def)
  have "takeWhile P xs ! (k - i) \<in> set (takeWhile P xs)"
    using m by (rule nth_mem)
  then have "P (takeWhile P xs ! (k - i))"
    by (rule set_takeWhileD [THEN conjunct2])
  moreover have "takeWhile P xs ! (k - i) = xs ! (k - i)"
    using m by (rule takeWhile_nth)
  moreover have "length (takeWhile P xs) \<le> length xs"
    by (rule length_takeWhile_le)
  then have "k - i < length xs" using m by simp
  then have "xs ! (k - i) = cells ! k"
    using assms(1) by (simp add: xs_def)
  ultimately show ?thesis by (simp add: P_def)
qed

lemma block_last_cell_marker:
  assumes "block_last_cell K cells i < length cells"
  shows "block_type (cells ! block_last_cell K cells i) = BLOCK_MODE_LAST_CELL K"
proof -
  let ?P = "\<lambda>c. block_type c \<noteq> BLOCK_MODE_LAST_CELL K"
  let ?m = "length (takeWhile ?P (drop i cells))"
  have "?m < length (drop i cells)"
    using assms by (simp add: block_last_cell_def)
  then have "\<not> ?P (drop i cells ! ?m)"
    by (rule nth_length_takeWhile)
  moreover have "i + ?m \<le> length cells" using assms by (simp add: block_last_cell_def)
  ultimately show ?thesis by (simp add: block_last_cell_def)
qed


lemma ff_dvd_get_next_cell_eq:
  assumes "current_pgc ctx = Some pgc"
    and "nr_of_cells pgc = int (length (cell_playback pgc))"
    and "0 \<le> current_cell ctx" and "current_cell ctx < nr_of_cells pgc"
  shows "ff_dvd_get_next_cell K ctx =
           (if block_type (cell_playback pgc ! nat (current_cell ctx)) = BLOCK_TYPE_ANGLE_BLOCK K
            then Some (ctx\<lparr>current_cell := current_cell ctx + angle_nr ctx\<rparr>,
                       if int (block_last_cell K (cell_playback pgc) (nat (current_cell ctx))) + 1
                            \<ge> nr_of_cells pgc
                       then - 1
                       else int (block_last_cell K (cell_playback pgc) (nat (current_cell ctx))) + 1)
            else Some (ctx, if current_cell ctx + 1 \<ge> nr_of_cells pgc then - 1
                            else current_cell ctx + 1))"
proof -
  have idx: "at_index (cell_playback pgc) (current_cell ctx)
               = Some (cell_playback pgc ! nat (current_cell ctx))"
    using assms by (simp add: at_index_Some)
  have ff: "fast_forward K pgc (current_cell ctx)
              = Some (int (block_last_cell K (cell_playback pgc) (nat (current_cell ctx))))"
    using assms by (simp add: fast_forward_eq)
  show ?thesis
    by (simp add: ff_dvd_get_next_cell_def assms(1) idx ff)
qed

lemma dvd_cell_walk_no_angle:
  assumes "nr_of_cells pgc = int (length (cell_playback pgc))"
    and "\<forall>c \<in> set (cell_playback pgc). block_type c \<noteq> BLOCK_TYPE_ANGLE_BLOCK K"
    and "current_pgc ctx = Some pgc"
    and "current_cell ctx = int i" and "i < length (cell_playback pgc)"
    and "m = length (cell_playback pgc) - i"
  shows "dvd_cell_walk m K ctx = Some (map int [i ..< length (cell_playback pgc)])"
  using assms
proof (induction m arbitrary: i ctx)
  case 0
  then show ?case by simp
next
  case (Suc m)
  let ?cells = "cell_playback pgc"
  have na: "block_type (?cells ! nat (current_cell ctx)) \<noteq> BLOCK_TYPE_ANGLE_BLOCK K"
    using Suc.prems by simp
  have nxt: "ff_dvd_get_next_cell K ctx =
               Some (ctx, if current_cell ctx + 1 \<ge> nr_of_cells pgc then - 1
                          else current_cell ctx + 1)"
    using ff_dvd_get_next_cell_eq [of ctx pgc K] Suc.prems na by simp
  show ?case
  proof (cases "Suc i < length ?cells")
    case False
    with Suc.prems have last: "Suc i = length ?cells" by simp
    then have "[i ..< length ?cells] = [i]"
      by (metis upt_conv_Cons lessI upt_eq_Nil_conv le_refl)
    moreover have "nr_of_cells pgc \<le> current_cell ctx + 1"
      using last Suc.prems(1,4) by simp
    then have "dvd_cell_walk (Suc m) K ctx = Some [current_cell ctx]"
      by (simp add: nxt)
    ultimately show ?thesis using Suc.prems(4) by simp
  next
    case True
    let ?ctx' = "ctx\<lparr>current_cell := int (Suc i)\<rparr>"
    have "m = length ?cells - Suc i" using Suc.prems(6) by simp
    then have "dvd_cell_walk m K ?ctx' = Some (map int [Suc i ..< length ?cells])"
      using Suc.IH [of ?ctx' "Suc i"] Suc.prems(1,2,3) True by simp
    moreover have "[i ..< length ?cells] = i # [Suc i ..< length ?cells]"
      using Suc.prems(5) by (simp add: upt_conv_Cons)
    moreover have "\<not> nr_of_cells pgc \<le> current_cell ctx + 1"
      using True Suc.prems(1,4) by simp
    then have "dvd_cell_walk (Suc m) K ctx =
                 map_option ((#) (current_cell ctx))
                   (dvd_cell_walk m K (ctx\<lparr>current_cell := current_cell ctx + 1\<rparr>))"
      using Suc.prems(4) by (simp add: nxt)
    moreover have "current_cell ctx + 1 = int (Suc i)" using Suc.prems(4) by simp
    ultimately have "dvd_cell_walk (Suc m) K ctx =
                       Some (current_cell ctx # map int [Suc i ..< length ?cells])"
      by (simp only: option.map)
    then show ?thesis
      using \<open>[i ..< length ?cells] = i # [Suc i ..< length ?cells]\<close> Suc.prems(4)
      by (simp only: list.map)
  qed
qed

text \<open>
  C5. Let the chain have as many cells as \<open>nr_of_cells\<close> says and let the current cell
  be one of them. Then \<open>ff_dvd_get_next_cell\<close> returns a value. If the current cell's
  \<open>block_type\<close> is not \<open>BLOCK_TYPE_ANGLE_BLOCK\<close>, the value is the current index
  plus one. If it is, the value is \<open>j + 1\<close>, where \<open>j\<close> is the first index from the
  current one on whose cell carries the last-cell marker (a \<open>block_type\<close> equal to
  \<open>BLOCK_MODE_LAST_CELL\<close>, which is what the loop tests), or the cell count when no
  cell carries it: the cells before \<open>j\<close> are passed over. In both cases an index that
  reaches the cell count is replaced by \<open>-1\<close>, and any other result lies after the
  current cell and inside the chain. On a chain without angle blocks the reads that start
  at cell 0 therefore enter the cells \<open>0, 1, ..., n - 1\<close> in this order, each once, and
  then get \<open>-1\<close>.
\<close>

theorem ff_dvd_get_next_cell_correct:
  assumes "current_pgc ctx = Some pgc"
    and "nr_of_cells pgc = int (length (cell_playback pgc))"
    and "0 \<le> current_cell ctx" and "current_cell ctx < nr_of_cells pgc"
  shows "\<exists>ctx' nxt. ff_dvd_get_next_cell K ctx = Some (ctx', nxt) \<and>
           (block_type (cell_playback pgc ! nat (current_cell ctx)) \<noteq> BLOCK_TYPE_ANGLE_BLOCK K \<longrightarrow>
              nxt = (if current_cell ctx + 1 \<ge> nr_of_cells pgc then - 1
                     else current_cell ctx + 1)) \<and>
           (block_type (cell_playback pgc ! nat (current_cell ctx)) = BLOCK_TYPE_ANGLE_BLOCK K \<longrightarrow>
              (\<exists>j. current_cell ctx \<le> j \<and> j \<le> nr_of_cells pgc \<and>
                 (\<forall>k. current_cell ctx \<le> k \<and> k < j \<longrightarrow>
                    block_type (cell_playback pgc ! nat k) \<noteq> BLOCK_MODE_LAST_CELL K) \<and>
                 (j < nr_of_cells pgc \<longrightarrow>
                    block_type (cell_playback pgc ! nat j) = BLOCK_MODE_LAST_CELL K) \<and>
                 nxt = (if j + 1 \<ge> nr_of_cells pgc then - 1 else j + 1))) \<and>
           (nxt = - 1 \<or> current_cell ctx < nxt \<and> nxt < nr_of_cells pgc) \<and>
           ((\<forall>c \<in> set (cell_playback pgc). block_type c \<noteq> BLOCK_TYPE_ANGLE_BLOCK K) \<longrightarrow>
              dvd_cell_walk (length (cell_playback pgc)) K (ctx\<lparr>current_cell := 0\<rparr>)
                = Some (map int [0 ..< length (cell_playback pgc)]))"
proof -
  let ?cells = "cell_playback pgc"
  let ?i = "current_cell ctx"
  let ?b = "block_last_cell K ?cells (nat ?i)"
  have len: "nat ?i < length ?cells" using assms by simp
  have b1: "nat ?i \<le> ?b" "?b \<le> length ?cells"
    using block_last_cell_bounds [of "nat ?i" ?cells K] len by simp_all
  have b2: "\<forall>k. ?i \<le> k \<and> k < int ?b \<longrightarrow> block_type (?cells ! nat k) \<noteq> BLOCK_MODE_LAST_CELL K"
  proof (intro allI impI)
    fix k assume "?i \<le> k \<and> k < int ?b"
    then have "nat ?i \<le> nat k" "nat k < ?b" using assms(3) by linarith+
    then show "block_type (?cells ! nat k) \<noteq> BLOCK_MODE_LAST_CELL K"
      by (rule block_last_cell_skips)
  qed
  have b3: "int ?b < nr_of_cells pgc \<longrightarrow> block_type (?cells ! nat (int ?b)) = BLOCK_MODE_LAST_CELL K"
    using block_last_cell_marker [of K ?cells "nat ?i"] assms(2) by simp
  have walk: "(\<forall>c \<in> set ?cells. block_type c \<noteq> BLOCK_TYPE_ANGLE_BLOCK K) \<longrightarrow>
              dvd_cell_walk (length ?cells) K (ctx\<lparr>current_cell := 0\<rparr>)
                = Some (map int [0 ..< length ?cells])"
    using dvd_cell_walk_no_angle [of pgc K "ctx\<lparr>current_cell := 0\<rparr>" 0 "length ?cells"] assms len
    by (cases "cell_playback pgc") auto
  show ?thesis
  proof (cases "block_type (?cells ! nat ?i) = BLOCK_TYPE_ANGLE_BLOCK K")
    case False
    then show ?thesis
      using ff_dvd_get_next_cell_eq [OF assms, of K] walk by simp
  next
    case True
    have "ff_dvd_get_next_cell K ctx =
            Some (ctx\<lparr>current_cell := ?i + angle_nr ctx\<rparr>,
                  if int ?b + 1 \<ge> nr_of_cells pgc then - 1 else int ?b + 1)"
      using ff_dvd_get_next_cell_eq [OF assms, of K] True by simp
    moreover have "?i \<le> int ?b" "int ?b \<le> nr_of_cells pgc"
      using b1 assms(2,3) by simp_all
    ultimately show ?thesis
      using True b2 b3 walk
      apply (intro exI conjI)
           apply assumption
          apply simp
         apply (intro impI exI [of _ "int ?b"])
         apply simp
        apply (simp split: if_splits)
       apply simp
      done
  qed
qed

theorem ff_dvd_get_next_cell_correct_witness:
  "map_option snd (ff_dvd_get_next_cell ex_consts (ex_cursor ex_pgc 1 100 149 149)) = Some 3 \<and>
   map_option snd (ff_dvd_get_next_cell ex_consts (ex_cursor ex_pgc 0 0 99 99)) = Some 1 \<and>
   map_option snd (ff_dvd_get_next_cell ex_consts (ex_cursor ex_pgc 3 200 299 299)) = Some (- 1) \<and>
   dvd_cell_walk 2 ex_consts (ex_cursor ex_plain_pgc 0 0 0 99) = Some [0, 1]"
proof -
  have B: "block_type (cell_playback ex_pgc ! nat 1) = BLOCK_TYPE_ANGLE_BLOCK ex_consts"
    by (simp add: ex_pgc_def ex_consts_def)
  have "fast_forward ex_consts ex_pgc 1 = Some 2"
    by (simp add: fast_forward.simps [of _ _ 1] fast_forward.simps [of _ _ 2]
          ex_pgc_def ex_consts_def at_index_def)
  then have angle: "map_option snd (ff_dvd_get_next_cell ex_consts (ex_cursor ex_pgc 1 100 149 149)) = Some 3"
    using ff_dvd_get_next_cell_correct [of "ex_cursor ex_pgc 1 100 149 149" ex_pgc ex_consts] B
    by (simp add: ff_dvd_get_next_cell_def ex_cursor_def at_index_def) (simp add: ex_pgc_def)
  have plain: "map_option snd (ff_dvd_get_next_cell ex_consts (ex_cursor ex_pgc 0 0 99 99)) = Some 1"
    using ff_dvd_get_next_cell_correct [of "ex_cursor ex_pgc 0 0 99 99" ex_pgc ex_consts]
    by (auto simp: ex_cursor_def ex_pgc_def ex_consts_def)
  have final: "map_option snd (ff_dvd_get_next_cell ex_consts (ex_cursor ex_pgc 3 200 299 299)) = Some (- 1)"
    using ff_dvd_get_next_cell_correct [of "ex_cursor ex_pgc 3 200 299 299" ex_pgc ex_consts]
    by (auto simp: ex_cursor_def ex_pgc_def ex_consts_def)
  have walk: "dvd_cell_walk 2 ex_consts (ex_cursor ex_plain_pgc 0 0 0 99) = Some [0, 1]"
    using ff_dvd_get_next_cell_correct [of "ex_cursor ex_plain_pgc 0 0 0 99" ex_plain_pgc ex_consts]
    by (simp add: ex_cursor_def ex_plain_pgc_def ex_consts_def upt_rec numeral_2_eq_2)
  show ?thesis using angle plain final walk by simp
qed

section \<open>Properties of \<open>dvd_url_read\<close>\<close>

lemma int32_id: "is_int x \<Longrightarrow> int32 x = x"
  by (simp add: int32_def is_int_def)

lemma c_div_sector_nonneg: "0 \<le> n \<Longrightarrow> c_div n DVD_SECTOR_SIZE = n div 2048"
  by (cases "n = 0") (simp_all add: c_div_def DVD_SECTOR_SIZE_def)

lemma c_div_sector_neg: "n < 0 \<Longrightarrow> c_div n DVD_SECTOR_SIZE \<le> 0"
  by (simp add: c_div_def DVD_SECTOR_SIZE_def)

lemma c_div_sector_bound:
  assumes "is_int n"
  shows "c_div n DVD_SECTOR_SIZE < 1048576"
proof (cases "0 \<le> n")
  case True
  have "n < 2147483648" using assms by (simp add: is_int_def)
  then have "n div 2048 < 1048576" by linarith
  then show ?thesis using True by (simp add: c_div_sector_nonneg)
next
  case False
  then have "c_div n DVD_SECTOR_SIZE \<le> 0" by (simp add: c_div_sector_neg)
  then show ?thesis by linarith
qed

lemma blocks_to_bytes:
  assumes "0 < bg" and "bg \<le> c_div n DVD_SECTOR_SIZE" and "is_int n"
  shows "int32 (bg * DVD_SECTOR_SIZE) = bg * 2048"
proof -
  have "bg < 1048576" using assms(2) c_div_sector_bound [OF assms(3)] by linarith
  then have "is_int (bg * 2048)" using assms(1) by (simp add: is_int_def)
  then show ?thesis by (simp add: DVD_SECTOR_SIZE_def int32_id)
qed

lemma dvd_url_read_Inr:
  "dvd_url_read K rd ctx n = (ctx', Inr r) \<longleftrightarrow>
     (\<exists>ctx1. dvd_enter_next_cell K ctx = (ctx1, None) \<and>
        0 < rd (current_sector ctx1) (c_div n DVD_SECTOR_SIZE) \<and>
        ctx' = ctx1\<lparr>current_sector :=
                 int32 (current_sector ctx1 + rd (current_sector ctx1) (c_div n DVD_SECTOR_SIZE))\<rparr> \<and>
        r = int32 (rd (current_sector ctx1) (c_div n DVD_SECTOR_SIZE) * DVD_SECTOR_SIZE))"
  by (auto simp: dvd_url_read_def Let_def split: prod.splits option.splits if_splits)

lemma dvd_enter_next_cell_None:
  assumes "dvd_enter_next_cell K ctx = (ctx1, None)"
  shows "(current_sector ctx < end_sector ctx \<longrightarrow> ctx1 = ctx) \<and>
         (end_sector ctx \<le> current_sector ctx \<longrightarrow> current_sector ctx1 = start_sector ctx1)"
  using assms
  by (auto simp: dvd_enter_next_cell_def split: option.splits prod.splits if_splits)

text \<open>
  C9. Let \<open>size\<close> be a C \<open>int\<close> and let \<open>DVDReadBlocks\<close> return at most the number of
  blocks it is asked for. If \<open>dvd_url_read\<close> returns a positive value \<open>r\<close>, then \<open>r\<close>
  is a multiple of 2048, namely 2048 times the positive number of blocks the block read
  returned, and \<open>current_sector\<close> is the sector the block read was issued at plus
  \<open>r / 2048\<close> (as a C \<open>int\<close>). \<open>start_sector\<close> is the one of the cell that was read
  from, so that, as long as the sector numbers stay in the range of \<open>int\<close>,
  \<open>current_sector - start_sector\<close> is again the number of sectors delivered from the
  current cell.
\<close>

theorem dvd_url_read_whole_sectors:
  assumes "dvd_url_read K rd ctx n = (ctx', Inr r)" and "0 < r" and "is_int n"
    and "\<forall>off cnt. rd off cnt \<le> cnt"
  shows "r mod DVD_SECTOR_SIZE = 0 \<and> 0 < r div DVD_SECTOR_SIZE \<and>
         r = rd (read_offset K ctx) (c_div n DVD_SECTOR_SIZE) * DVD_SECTOR_SIZE \<and>
         current_sector ctx' = int32 (read_offset K ctx + r div DVD_SECTOR_SIZE) \<and>
         start_sector ctx' = start_sector (fst (dvd_enter_next_cell K ctx)) \<and>
         (is_int (read_offset K ctx + r div DVD_SECTOR_SIZE) \<longrightarrow>
          current_sector ctx - start_sector ctx = d \<longrightarrow>
            current_sector ctx' - start_sector ctx' = sectors_delivered ctx d r)"
proof -
  obtain ctx1 where enter: "dvd_enter_next_cell K ctx = (ctx1, None)"
    and pos: "0 < rd (current_sector ctx1) (c_div n DVD_SECTOR_SIZE)"
    and ctx': "ctx' = ctx1\<lparr>current_sector :=
                 int32 (current_sector ctx1 + rd (current_sector ctx1) (c_div n DVD_SECTOR_SIZE))\<rparr>"
    and r: "r = int32 (rd (current_sector ctx1) (c_div n DVD_SECTOR_SIZE) * DVD_SECTOR_SIZE)"
    using assms(1) unfolding dvd_url_read_Inr by blast
  define bg where "bg = rd (current_sector ctx1) (c_div n DVD_SECTOR_SIZE)"
  have le: "bg \<le> c_div n DVD_SECTOR_SIZE" using assms(4) by (simp add: bg_def)
  have r2: "r = bg * 2048"
    using blocks_to_bytes [OF pos [folded bg_def] le assms(3)] r by (simp add: bg_def)
  have off: "read_offset K ctx = current_sector ctx1" by (simp add: read_offset_def enter)
  have dv: "r div 2048 = bg" and md: "r mod 2048 = 0" using r2 by simp_all
  have cur: "current_sector ctx' = int32 (current_sector ctx1 + bg)"
    by (simp add: ctx' bg_def)
  have st: "start_sector ctx' = start_sector ctx1" by (simp add: ctx')
  have inv: "current_sector ctx' - start_sector ctx' = sectors_delivered ctx d r"
    if "is_int (current_sector ctx1 + bg)" and "current_sector ctx - start_sector ctx = d"
  proof (cases "current_sector ctx < end_sector ctx")
    case True
    then have "ctx1 = ctx" using dvd_enter_next_cell_None [OF enter] by simp
    then show ?thesis
      using that True by (simp add: cur st int32_id sectors_delivered_def DVD_SECTOR_SIZE_def dv)
  next
    case False
    then have "current_sector ctx1 = start_sector ctx1"
      using dvd_enter_next_cell_None [OF enter] by simp
    then show ?thesis
      using that False by (simp add: cur st int32_id sectors_delivered_def DVD_SECTOR_SIZE_def dv)
  qed
  show ?thesis
    using md dv pos [folded bg_def] r2 cur st inv
    by (simp add: DVD_SECTOR_SIZE_def off enter bg_def)
qed

theorem dvd_url_read_whole_sectors_witness:
  "dvd_url_read ex_consts read_all (ex_cursor ex_pgc 0 0 90 99) 8192
     = ((ex_cursor ex_pgc 0 0 90 99)\<lparr>current_sector := 94\<rparr>, Inr 8192) \<and>
   (8192 :: int) mod DVD_SECTOR_SIZE = 0 \<and>
   current_sector ((ex_cursor ex_pgc 0 0 90 99)\<lparr>current_sector := 94\<rparr>)
     - start_sector ((ex_cursor ex_pgc 0 0 90 99)\<lparr>current_sector := 94\<rparr>)
     = sectors_delivered (ex_cursor ex_pgc 0 0 90 99) 90 8192"
proof -
  have rd: "dvd_url_read ex_consts read_all (ex_cursor ex_pgc 0 0 90 99) 8192
     = ((ex_cursor ex_pgc 0 0 90 99)\<lparr>current_sector := 94\<rparr>, Inr 8192)"
    by (simp add: dvd_url_read_def dvd_enter_next_cell_def ex_cursor_def read_all_def
          c_div_def DVD_SECTOR_SIZE_def int32_def)
  have off: "read_offset ex_consts (ex_cursor ex_pgc 0 0 90 99) = 90"
    by (simp add: read_offset_def dvd_enter_next_cell_def ex_cursor_def)
  show ?thesis
    using dvd_url_read_whole_sectors [OF rd, of 90] off rd
    by (simp add: is_int_def read_all_def DVD_SECTOR_SIZE_def ex_cursor_def)
qed

text \<open>
  C1, as the code has it. \<open>dvd_url_read\<close> issues one call of \<open>DVDReadBlocks\<close>, at
  the current sector and for \<open>size / 2048\<close> blocks: the request is not cut down to the
  sectors that remain in the cell. When that call returns \<open>blocks_got\<close> blocks, with
  \<open>0 < blocks_got\<close> and at most the blocks asked for, \<open>dvd_url_read\<close> returns
  \<open>blocks_got * 2048\<close> and \<open>current_sector\<close> has advanced by \<open>blocks_got\<close>,
  whatever \<open>end_sector\<close> is.
\<close>

theorem dvd_url_read_returns_blocks_got:
  assumes "dvd_enter_next_cell K ctx = (ctx1, None)"
    and "rd (current_sector ctx1) (c_div n DVD_SECTOR_SIZE) = blocks_got"
    and "0 < blocks_got" and "blocks_got \<le> c_div n DVD_SECTOR_SIZE" and "is_int n"
  shows "dvd_url_read K rd ctx n =
           (ctx1\<lparr>current_sector := int32 (current_sector ctx1 + blocks_got)\<rparr>,
            Inr (blocks_got * DVD_SECTOR_SIZE))"
proof -
  have "int32 (blocks_got * DVD_SECTOR_SIZE) = blocks_got * DVD_SECTOR_SIZE"
    using blocks_to_bytes [OF assms(3,4,5)] by (simp add: DVD_SECTOR_SIZE_def)
  then show ?thesis
    using assms(1,2,3) by (simp add: dvd_url_read_def Let_def)
qed

theorem dvd_url_read_returns_blocks_got_witness:
  "dvd_url_read ex_consts read_all (ex_cursor ex_pgc 0 0 90 99) 40960
     = ((ex_cursor ex_pgc 0 0 90 99)\<lparr>current_sector := 110\<rparr>, Inr 40960)"
proof -
  have enter: "dvd_enter_next_cell ex_consts (ex_cursor ex_pgc 0 0 90 99)
                 = (ex_cursor ex_pgc 0 0 90 99, None)"
    by (simp add: dvd_enter_next_cell_def ex_cursor_def)
  have nb: "c_div 40960 DVD_SECTOR_SIZE = 20"
    by (simp add: c_div_def DVD_SECTOR_SIZE_def)
  have "dvd_url_read ex_consts read_all (ex_cursor ex_pgc 0 0 90 99) 40960
          = ((ex_cursor ex_pgc 0 0 90 99)
               \<lparr>current_sector := int32 (current_sector (ex_cursor ex_pgc 0 0 90 99) + 20)\<rparr>,
             Inr (20 * DVD_SECTOR_SIZE))"
    by (rule dvd_url_read_returns_blocks_got [OF enter])
       (simp_all add: nb read_all_def is_int_def)
  then show ?thesis
    by (simp add: ex_cursor_def int32_def DVD_SECTOR_SIZE_def)
qed

text \<open>
  The claim as the specification states it fails on the example chain: cell A ends at
  sector 99 and the cursor stands at sector 90, so 9 sectors remain by the claim's count;
  a request of 20 sectors returns 20 sectors' bytes, and the cursor ends beyond the cell.
\<close>

theorem dvd_url_read_short_read_counterexample:
  "end_sector (ex_cursor ex_pgc 0 0 90 99) - current_sector (ex_cursor ex_pgc 0 0 90 99)
     < c_div 40960 DVD_SECTOR_SIZE \<and>
   (end_sector (ex_cursor ex_pgc 0 0 90 99) - current_sector (ex_cursor ex_pgc 0 0 90 99))
     * DVD_SECTOR_SIZE = 18432 \<and>
   snd (dvd_url_read ex_consts read_all (ex_cursor ex_pgc 0 0 90 99) 40960) = Inr 40960 \<and>
   current_sector (fst (dvd_url_read ex_consts read_all (ex_cursor ex_pgc 0 0 90 99) 40960)) = 110"
  by (simp add: dvd_url_read_def dvd_enter_next_cell_def ex_cursor_def read_all_def
        c_div_def DVD_SECTOR_SIZE_def int32_def)

text \<open>
  Lines 284-294 on a cursor whose current cell is in the chain: inside the cell nothing
  changes; at its end the cursor moves to the first sector of the next cell, or the call
  ends with \<open>AVERROR_EOF\<close> when the title is exhausted.
\<close>

lemma dvd_enter_next_cell_sound:
  assumes "current_pgc ctx = Some pgc"
    and "nr_of_cells pgc = int (length (cell_playback pgc))"
    and "0 \<le> current_cell ctx" and "current_cell ctx < nr_of_cells pgc"
  shows "dvd_enter_next_cell K ctx =
           (if current_sector ctx < end_sector ctx then (ctx, None)
            else if title_exhausted K pgc ctx then (leave_cell K pgc ctx, Some AVERROR_EOF)
            else ((leave_cell K pgc ctx)
                    \<lparr>current_cell := next_cell_index K pgc (current_cell ctx),
                     start_sector :=
                       first_sector (cell_playback pgc ! nat (next_cell_index K pgc (current_cell ctx))),
                     end_sector :=
                       last_sector (cell_playback pgc ! nat (next_cell_index K pgc (current_cell ctx))),
                     current_sector :=
                       first_sector (cell_playback pgc ! nat (next_cell_index K pgc (current_cell ctx)))\<rparr>,
                  None))"
proof (cases "current_sector ctx < end_sector ctx")
  case True
  then show ?thesis by (simp add: dvd_enter_next_cell_def)
next
  case False
  let ?nx = "next_cell_index K pgc (current_cell ctx)"
  have nc: "ff_dvd_get_next_cell K ctx =
              Some (leave_cell K pgc ctx, if nr_of_cells pgc \<le> ?nx then - 1 else ?nx)"
    using ff_dvd_get_next_cell_eq [OF assms, of K]
    by (simp add: next_cell_index_def leave_cell_def)
  have pos: "0 < ?nx"
    using assms(3) by (simp add: next_cell_index_def)
  have pgc': "current_pgc (leave_cell K pgc ctx) = Some pgc"
    using assms(1) by (simp add: leave_cell_def)
  show ?thesis
  proof (cases "nr_of_cells pgc \<le> ?nx")
    case True
    then show ?thesis
      using False by (simp add: dvd_enter_next_cell_def nc title_exhausted_def)
  next
    case nx: False
    then have "at_index (cell_playback pgc) ?nx = Some (cell_playback pgc ! nat ?nx)"
      using pos assms(2) by (simp add: at_index_Some)
    then show ?thesis
      using False nx pos
      by (simp add: dvd_enter_next_cell_def nc pgc' title_exhausted_def)
  qed
qed

text \<open>
  C10, as the code has it. For a request of fewer than 2048 bytes the number of whole
  sectors is zero. If \<open>DVDReadBlocks\<close> returns at most the number of blocks it is asked
  for, such a read never returns a byte count, whatever the cursor is. On a cursor whose
  current cell is in the chain its result is this: inside the cell, the I/O error
  \<open>AVERROR(EIO)\<close> and an unchanged context; at the end of the cell of an exhausted title,
  \<open>AVERROR_EOF\<close>; at the end of any other cell, the I/O error again, with the cursor
  moved to the first sector of the next cell. So \<open>AVERROR_EOF\<close> is returned exactly
  when the current cell is used up and no cell follows it.
\<close>

theorem dvd_url_read_short_request:
  assumes "0 \<le> n" and "n < DVD_SECTOR_SIZE" and "\<forall>off cnt. rd off cnt \<le> cnt"
  shows "c_div n DVD_SECTOR_SIZE = 0 \<and>
         (\<forall>r. snd (dvd_url_read K rd ctx n) \<noteq> Inr r) \<and>
         (current_pgc ctx = Some pgc \<and> nr_of_cells pgc = int (length (cell_playback pgc)) \<and>
          0 \<le> current_cell ctx \<and> current_cell ctx < nr_of_cells pgc \<longrightarrow>
            dvd_url_read K rd ctx n =
              (if current_sector ctx < end_sector ctx then (ctx, Inl EIO)
               else if title_exhausted K pgc ctx then (leave_cell K pgc ctx, Inl AVERROR_EOF)
               else ((leave_cell K pgc ctx)
                       \<lparr>current_cell := next_cell_index K pgc (current_cell ctx),
                        start_sector :=
                          first_sector (cell_playback pgc ! nat (next_cell_index K pgc (current_cell ctx))),
                        end_sector :=
                          last_sector (cell_playback pgc ! nat (next_cell_index K pgc (current_cell ctx))),
                        current_sector :=
                          first_sector (cell_playback pgc ! nat (next_cell_index K pgc (current_cell ctx)))\<rparr>,
                     Inl EIO)) \<and>
            (snd (dvd_url_read K rd ctx n) = Inl AVERROR_EOF \<longleftrightarrow> title_exhausted K pgc ctx) \<and>
            (snd (dvd_url_read K rd ctx n) = Inl EIO \<longleftrightarrow> \<not> title_exhausted K pgc ctx))"
proof -
  have "c_div n DVD_SECTOR_SIZE = n div 2048"
    using assms(1) by (rule c_div_sector_nonneg)
  moreover have "n div 2048 = 0"
    using assms(1,2) by (simp add: DVD_SECTOR_SIZE_def)
  ultimately have zero: "c_div n DVD_SECTOR_SIZE = 0" by simp
  have le: "rd s 0 \<le> 0" for s using assms(3) by simp
  have rd: "dvd_url_read K rd ctx n =
           (fst (dvd_enter_next_cell K ctx),
            Inl (case snd (dvd_enter_next_cell K ctx) of None \<Rightarrow> EIO | Some e \<Rightarrow> e))"
    using le by (cases "dvd_enter_next_cell K ctx")
      (auto simp: dvd_url_read_def zero Let_def split: option.splits)
  have never: "\<forall>r. snd (dvd_url_read K rd ctx n) \<noteq> Inr r"
    by (simp add: rd)
  have sound: "dvd_url_read K rd ctx n =
              (if current_sector ctx < end_sector ctx then (ctx, Inl EIO)
               else if title_exhausted K pgc ctx then (leave_cell K pgc ctx, Inl AVERROR_EOF)
               else ((leave_cell K pgc ctx)
                       \<lparr>current_cell := next_cell_index K pgc (current_cell ctx),
                        start_sector :=
                          first_sector (cell_playback pgc ! nat (next_cell_index K pgc (current_cell ctx))),
                        end_sector :=
                          last_sector (cell_playback pgc ! nat (next_cell_index K pgc (current_cell ctx))),
                        current_sector :=
                          first_sector (cell_playback pgc ! nat (next_cell_index K pgc (current_cell ctx)))\<rparr>,
                     Inl EIO))"
    if "current_pgc ctx = Some pgc" "nr_of_cells pgc = int (length (cell_playback pgc))"
      "0 \<le> current_cell ctx" "current_cell ctx < nr_of_cells pgc"
    unfolding rd dvd_enter_next_cell_sound [OF that, of K] by simp
  have inside: "\<not> title_exhausted K pgc ctx" if "current_sector ctx < end_sector ctx"
    using that by (simp add: title_exhausted_def)
  have eof: "snd (dvd_url_read K rd ctx n) = Inl AVERROR_EOF \<longleftrightarrow> title_exhausted K pgc ctx"
    and eio: "snd (dvd_url_read K rd ctx n) = Inl EIO \<longleftrightarrow> \<not> title_exhausted K pgc ctx"
    if "current_pgc ctx = Some pgc" "nr_of_cells pgc = int (length (cell_playback pgc))"
      "0 \<le> current_cell ctx" "current_cell ctx < nr_of_cells pgc"
    using sound [OF that] inside by (auto split: if_splits)
  show ?thesis using zero never sound eof eio by blast
qed

theorem dvd_url_read_short_request_witness:
  "c_div 100 DVD_SECTOR_SIZE = 0 \<and>
   dvd_url_read ex_consts read_all (ex_cursor ex_pgc 0 0 90 99) 100
     = (ex_cursor ex_pgc 0 0 90 99, Inl EIO) \<and>
   dvd_url_read ex_consts read_all (ex_cursor ex_pgc 0 0 99 99) 100
     = (ex_cursor ex_pgc 1 100 100 149, Inl EIO) \<and>
   dvd_url_read ex_consts read_all (ex_cursor ex_pgc 1 100 149 149) 100
     = (ex_cursor ex_pgc 3 200 200 299, Inl EIO) \<and>
   dvd_url_read ex_consts read_all (ex_cursor ex_pgc 3 200 299 299) 100
     = (ex_cursor ex_pgc 3 200 299 299, Inl AVERROR_EOF) \<and>
   title_exhausted ex_consts ex_pgc (ex_cursor ex_pgc 3 200 299 299)"
proof -
  have pre: "(0::int) \<le> 100" "(100::int) < DVD_SECTOR_SIZE" "\<forall>off cnt. read_all off cnt \<le> cnt"
    by (simp_all add: DVD_SECTOR_SIZE_def read_all_def)
  note th = dvd_url_read_short_request [OF pre, of ex_consts _ ex_pgc]
  have sel: "current_sector (ex_cursor p c a s b) = s" "end_sector (ex_cursor p c a s b) = b"
    "current_cell (ex_cursor p c a s b) = c" "current_pgc (ex_cursor p c a s b) = Some p"
    for p c a s b
    by (simp_all add: ex_cursor_def)
  have upd: "(ex_cursor p c a s b)\<lparr>current_cell := c', start_sector := a', end_sector := b',
               current_sector := s'\<rparr> = ex_cursor p c' a' s' b'"
    for p c a s b c' a' s' b'
    by (simp add: ex_cursor_def)
  have len: "int (length (cell_playback ex_pgc)) = 4" "nr_of_cells ex_pgc = 4"
    by (simp_all add: ex_pgc_def)
  have cells: "cell_playback ex_pgc ! Suc 0 = \<lparr>block_type = 1, first_sector = 100, last_sector = 149\<rparr>"
    "cell_playback ex_pgc ! 3 = \<lparr>block_type = 0, first_sector = 200, last_sector = 299\<rparr>"
    by (simp_all add: ex_pgc_def)
  have blc: "block_last_cell ex_consts (cell_playback ex_pgc) (nat 1) = 2"
    by (simp add: block_last_cell_def ex_pgc_def ex_consts_def)
  have nx: "next_cell_index ex_consts ex_pgc 0 = 1" "next_cell_index ex_consts ex_pgc 1 = 3"
    "next_cell_index ex_consts ex_pgc 3 = 4"
    using blc by (simp_all add: next_cell_index_def) (simp_all add: ex_pgc_def ex_consts_def)
  have lv: "leave_cell ex_consts ex_pgc (ex_cursor ex_pgc c a s b) = ex_cursor ex_pgc c a s b"
    for c a s b
    by (simp add: leave_cell_def ex_cursor_def)
  have ex: "title_exhausted ex_consts ex_pgc (ex_cursor ex_pgc 3 200 299 299)"
    "\<not> title_exhausted ex_consts ex_pgc (ex_cursor ex_pgc 0 0 99 99)"
    "\<not> title_exhausted ex_consts ex_pgc (ex_cursor ex_pgc 1 100 149 149)"
    by (simp_all add: title_exhausted_def sel nx len)
  have a: "dvd_url_read ex_consts read_all (ex_cursor ex_pgc 0 0 90 99) 100
     = (ex_cursor ex_pgc 0 0 90 99, Inl EIO)"
    using th [of "ex_cursor ex_pgc 0 0 90 99"] by (simp add: sel len)
  have b: "dvd_url_read ex_consts read_all (ex_cursor ex_pgc 0 0 99 99) 100
     = (ex_cursor ex_pgc 1 100 100 149, Inl EIO)"
    using th [of "ex_cursor ex_pgc 0 0 99 99"] by (simp add: sel len ex lv nx upd cells)
  have c: "dvd_url_read ex_consts read_all (ex_cursor ex_pgc 1 100 149 149) 100
     = (ex_cursor ex_pgc 3 200 200 299, Inl EIO)"
    using th [of "ex_cursor ex_pgc 1 100 149 149"] by (simp add: sel len ex lv nx upd cells)
  have d: "dvd_url_read ex_consts read_all (ex_cursor ex_pgc 3 200 299 299) 100
     = (ex_cursor ex_pgc 3 200 299 299, Inl AVERROR_EOF)"
    using th [of "ex_cursor ex_pgc 3 200 299 299"] by (simp add: sel len ex lv)
  have z: "c_div 100 DVD_SECTOR_SIZE = 0"
    using th [of "ex_cursor ex_pgc 0 0 90 99"] by simp
  show ?thesis using z a b c d ex(1) by simp
qed

text \<open>
  The claim as stated fails when the title is exhausted: on the last cell D of the example
  chain, with the cursor at the end of the cell, a read of 100 bytes returns
  \<open>AVERROR_EOF\<close>, which is not the I/O error.
\<close>

theorem dvd_url_read_short_request_counterexample:
  "(100 :: int) < DVD_SECTOR_SIZE \<and>
   read_all (current_sector (ex_cursor ex_pgc 3 200 299 299)) (c_div 100 DVD_SECTOR_SIZE)
     \<le> c_div 100 DVD_SECTOR_SIZE \<and>
   snd (dvd_url_read ex_consts read_all (ex_cursor ex_pgc 3 200 299 299) 100) = Inl AVERROR_EOF \<and>
   AVERROR_EOF \<noteq> EIO"
  by (simp add: dvd_url_read_def dvd_enter_next_cell_def ff_dvd_get_next_cell_def ex_cursor_def
        ex_pgc_def ex_consts_def at_index_def read_all_def c_div_def DVD_SECTOR_SIZE_def)

section \<open>Properties of the entry resolution\<close>

text \<open>
  C6. Let the tables hold what \<open>ff_dvd_set_program_chain_info\<close> looks up: the title,
  its part \<open>ptt_nr\<close> with chain number \<open>pgcn\<close> and program number \<open>pgn\<close>, the chain,
  the entry \<open>m = program_map[pgn - 1]\<close> and the cell \<open>c0\<close> at index \<open>m - 1\<close>. Then the
  function selects that chain and sets \<open>current_cell\<close> to \<open>m - 1\<close>, to which it adds
  the angle number when the \<open>block_type\<close> of \<open>c0\<close> is \<open>BLOCK_TYPE_ANGLE_BLOCK\<close>;
  \<open>start_sector\<close> and \<open>current_sector\<close> become the \<open>first_sector\<close> of the cell
  at the resulting index and \<open>end_sector\<close> its \<open>last_sector\<close>. Nothing else of the
  context changes.
\<close>

theorem ff_dvd_set_program_chain_info_entry:
  assumes "vmg_ifo ctx = Some vmg"
    and "at_index (tt_srpt_t.title (tt_srpt vmg)) t_nr = Some ti"
    and "vts_ifo ctx = Some vts"
    and "at_index (vts_ptt_srpt vts) (vts_ttn ti - 1) = Some ptts"
    and "at_index ptts ptt_nr = Some ptt"
    and "vts_pgcit vts = Some pgcs"
    and "at_index pgcs (pgcn ptt - 1) = Some pgc"
    and "at_index (program_map pgc) (pgn ptt - 1) = Some m"
    and "at_index (cell_playback pgc) (m - 1) = Some c0"
    and "entry = (if block_type c0 = BLOCK_TYPE_ANGLE_BLOCK K then m - 1 + angle_nr ctx
                  else m - 1)"
    and "at_index (cell_playback pgc) entry = Some c"
  shows "ff_dvd_set_program_chain_info K ctx t_nr ptt_nr =
           Some (ctx\<lparr>current_pgc := Some pgc, current_cell := entry,
                     current_sector := first_sector c, start_sector := first_sector c,
                     end_sector := last_sector c\<rparr>)"
  using assms by (auto simp: ff_dvd_set_program_chain_info_def split: if_splits)

theorem ff_dvd_set_program_chain_info_entry_witness:
  "ff_dvd_set_program_chain_info ex_consts
     ((ex_options 0 1)\<lparr>vmg_ifo := Some ex_vmg, vts_ifo := Some ex_vts\<rparr>) 0 0 =
   Some ((ex_options 0 1)\<lparr>vmg_ifo := Some ex_vmg, vts_ifo := Some ex_vts,
           current_pgc := Some ex_pgc, current_cell := 2,
           current_sector := 150, start_sector := 150, end_sector := 199\<rparr>)"
proof -
  let ?ctx = "(ex_options 0 1)\<lparr>vmg_ifo := Some ex_vmg, vts_ifo := Some ex_vts\<rparr>"
  let ?ti = "\<lparr>nr_of_angles = 2, nr_of_ptts = 1, title_set_nr = 1, vts_ttn = 1\<rparr>"
  let ?B = "\<lparr>block_type = 1, first_sector = 100, last_sector = 149\<rparr>"
  let ?C = "\<lparr>block_type = 3, first_sector = 150, last_sector = 199\<rparr>"
  have "ff_dvd_set_program_chain_info ex_consts ?ctx 0 0 =
          Some (?ctx\<lparr>current_pgc := Some ex_pgc, current_cell := 2,
                      current_sector := first_sector ?C, start_sector := first_sector ?C,
                      end_sector := last_sector ?C\<rparr>)"
  proof (rule ff_dvd_set_program_chain_info_entry
      [where vmg = ex_vmg and ti = ?ti and vts = ex_vts and ptts = "[\<lparr>pgcn = 1, pgn = 2\<rparr>]"
         and ptt = "\<lparr>pgcn = 1, pgn = 2\<rparr>" and pgcs = "[ex_pgc]" and pgc = ex_pgc and m = 2
         and ?c0.0 = ?B and c = ?C])
    show "vmg_ifo ?ctx = Some ex_vmg" by simp
    show "at_index (tt_srpt_t.title (tt_srpt ex_vmg)) 0 = Some ?ti"
      by (simp add: ex_vmg_def at_index_def)
    show "vts_ifo ?ctx = Some ex_vts" by simp
    show "at_index (vts_ptt_srpt ex_vts) (vts_ttn ?ti - 1) = Some [\<lparr>pgcn = 1, pgn = 2\<rparr>]"
      by (simp add: ex_vts_def at_index_def)
    show "at_index [\<lparr>pgcn = 1, pgn = 2\<rparr>] 0 = Some \<lparr>pgcn = 1, pgn = 2\<rparr>"
      by (simp add: at_index_def)
    show "vts_pgcit ex_vts = Some [ex_pgc]" by (simp add: ex_vts_def)
    show "at_index [ex_pgc] (pgcn \<lparr>pgcn = 1, pgn = 2\<rparr> - 1) = Some ex_pgc"
      by (simp add: at_index_def)
    show "at_index (program_map ex_pgc) (pgn \<lparr>pgcn = 1, pgn = 2\<rparr> - 1) = Some 2"
      by (simp add: ex_pgc_def at_index_def)
    show "at_index (cell_playback ex_pgc) (2 - 1) = Some ?B"
      by (simp add: ex_pgc_def at_index_def)
    show "2 = (if block_type ?B = BLOCK_TYPE_ANGLE_BLOCK ex_consts then 2 - 1 + angle_nr ?ctx
               else 2 - 1)"
      by (simp add: ex_consts_def ex_options_def)
    show "at_index (cell_playback ex_pgc) 2 = Some ?C"
      by (simp add: ex_pgc_def at_index_def)
  qed
  then show ?thesis by simp
qed

section \<open>Properties of \<open>bluray_seek_bd\<close>\<close>

text \<open>
  C8. Let the context and its disc handle be there, as they are for every call made through
  the I/O context that \<open>bluray_read_header\<close> sets up, and let \<open>AVSEEK_SIZE\<close> differ
  from the three seek origins (the labels of a C \<open>switch\<close> are distinct). For
  \<open>whence\<close> equal to \<open>SEEK_SET\<close>, \<open>SEEK_CUR\<close> or \<open>SEEK_END\<close> the call is
  \<open>bd_seek\<close> on the handle with the given offset: its result is returned and the
  handle is the one \<open>bd_seek\<close> leaves. For \<open>AVSEEK_SIZE\<close> the value of
  \<open>bd_get_title_size\<close> is returned. For every other \<open>whence\<close> the result is
  \<open>AVERROR(EINVAL)\<close>. In the last two cases the context, and with it the position of
  the stream, is unchanged.
\<close>

theorem bluray_seek_bd_whence:
  assumes "opaque = Some ctx" and "bd ctx = Some h"
    and "AVSEEK_SIZE W \<notin> {SEEK_SET W, SEEK_CUR W, SEEK_END W}"
  shows "(whence \<in> {SEEK_SET W, SEEK_CUR W, SEEK_END W} \<longrightarrow>
            bluray_seek_bd W L opaque offset whence =
              (Some (ctx\<lparr>bd := Some (fst (bd_seek L h offset))\<rparr>),
               Inr (snd (bd_seek L h offset)))) \<and>
         (whence = AVSEEK_SIZE W \<longrightarrow>
            bluray_seek_bd W L opaque offset whence = (opaque, Inr (bd_get_title_size L h))) \<and>
         (whence \<notin> {SEEK_SET W, SEEK_CUR W, SEEK_END W, AVSEEK_SIZE W} \<longrightarrow>
            bluray_seek_bd W L opaque offset whence = (opaque, Inl EINVAL))"
  using assms by (auto simp: bluray_seek_bd_def split: prod.splits)

theorem bluray_seek_bd_whence_witness:
  "bluray_seek_bd ex_whence ex_stream_lib (Some (ex_bluray_ctx 0)) 2048 0 =
     (Some ((ex_bluray_ctx 0)\<lparr>bd := Some 2048\<rparr>), Inr 2048) \<and>
   bluray_seek_bd ex_whence ex_stream_lib (Some (ex_bluray_ctx 0)) 0 0x10000 =
     (Some (ex_bluray_ctx 0), Inr 4096) \<and>
   bluray_seek_bd ex_whence ex_stream_lib (Some (ex_bluray_ctx 0)) 2048 7 =
     (Some (ex_bluray_ctx 0), Inl EINVAL)"
proof -
  have h: "bd (ex_bluray_ctx 0) = Some 0" by (simp add: ex_bluray_ctx_def)
  have d: "AVSEEK_SIZE ex_whence \<notin> {SEEK_SET ex_whence, SEEK_CUR ex_whence, SEEK_END ex_whence}"
    by (simp add: ex_whence_def)
  note s = bluray_seek_bd_whence [OF refl h d, where L = ex_stream_lib]
  have "bluray_seek_bd ex_whence ex_stream_lib (Some (ex_bluray_ctx 0)) 2048 0 =
     (Some ((ex_bluray_ctx 0)\<lparr>bd := Some 2048\<rparr>), Inr 2048)"
    using s [where whence = 0 and offset = 2048] by (simp add: ex_whence_def ex_stream_lib_def)
  moreover have "bluray_seek_bd ex_whence ex_stream_lib (Some (ex_bluray_ctx 0)) 0 0x10000 =
     (Some (ex_bluray_ctx 0), Inr 4096)"
    using s [where whence = "0x10000" and offset = 0] by (simp add: ex_whence_def ex_stream_lib_def)
  moreover have "bluray_seek_bd ex_whence ex_stream_lib (Some (ex_bluray_ctx 0)) 2048 7 =
     (Some (ex_bluray_ctx 0), Inl EINVAL)"
    using s [where whence = 7 and offset = 2048] by (simp add: ex_whence_def)
  ultimately show ?thesis by simp
qed

section \<open>Properties of the title scans\<close>

text \<open>
  A loop whose body either stops with an error or applies an update for the items that
  \<open>sel\<close> keeps is, when it ends without error, the fold of that update.
\<close>

lemma for_each_fold:
  assumes "\<And>i st st'. body i st = Inr st' \<Longrightarrow> st' = fold upd (sel i) st"
    and "for_each body xs st = Inr st'"
  shows "st' = fold upd (concat (map sel xs)) st"
  using assms(2)
proof (induction xs arbitrary: st)
  case Nil
  then show ?case by simp
next
  case (Cons x xs)
  then obtain st1 where b: "body x st = Inr st1" and r: "for_each body xs st1 = Inr st'"
    by (auto split: sum.splits)
  have "st1 = fold upd (sel x) st" using b by (rule assms(1))
  moreover have "st' = fold upd (concat (map sel xs)) st1" using r by (rule Cons.IH)
  ultimately show ?case by simp
qed

lemma dvd_scan_title_fold:
  assumes "dvd_scan_title disc tt n vts_nr t st = Inr st'"
  shows "st' = fold (\<lambda>(t, ms) s. dvd_longest_update s t ms)
                 (case dvd_title_length disc tt n vts_nr t of
                    Inr (Some ms) \<Rightarrow> [(t, ms)] | _ \<Rightarrow> []) st"
  using assms by (auto simp: dvd_scan_title_def split: sum.splits option.splits)

lemma dvd_scan_titles_fold:
  assumes "dvd_scan_titles disc tt num_vts n = Inr st'"
  shows "st' = fold (\<lambda>(t, ms) s. dvd_longest_update s t ms)
                 (dvd_candidates disc tt num_vts n) (None, 0)"
proof -
  let ?upd = "\<lambda>(t, ms) s. dvd_longest_update s t ms"
  let ?sel = "\<lambda>vts_nr t. case dvd_title_length disc tt n vts_nr t of
                            Inr (Some ms) \<Rightarrow> [(t, ms)] | _ \<Rightarrow> []"
  have inner: "st2 = fold ?upd (concat (map (?sel v) [0..n - 1])) st1"
    if "for_each (dvd_scan_title disc tt n v) [0..n - 1] st1 = Inr st2" for v st1 st2
    using _ that
  proof (rule for_each_fold)
    fix i s s' assume "dvd_scan_title disc tt n v i s = Inr s'"
    then show "s' = fold ?upd (?sel v i) s" by (rule dvd_scan_title_fold)
  qed
  have "st' = fold ?upd (concat (map (\<lambda>v. concat (map (?sel v) [0..n - 1])) [1..num_vts])) (None, 0)"
    using _ assms [unfolded dvd_scan_titles_def]
  proof (rule for_each_fold)
    fix v s s' assume "for_each (dvd_scan_title disc tt n v) [0..n - 1] s = Inr s'"
    then show "s' = fold ?upd (concat (map (?sel v) [0..n - 1])) s" by (rule inner)
  qed
  then show ?thesis by (simp add: dvd_candidates_def)
qed

text \<open>The scan with \<open>\<le>\<close> ends on the last title of maximum length.\<close>

lemma fold_longest_le:
  "case fold (\<lambda>(t, ms) s. dvd_longest_update s t ms) cs (None, 0) of
     (None, L) \<Rightarrow> L = 0 \<and> (\<forall>k < length cs. snd (cs ! k) < 0)
   | (Some t, L) \<Rightarrow> \<exists>j. last_longest cs j \<and> cs ! j = (t, L) \<and> 0 \<le> L"
proof (induction cs rule: rev_induct)
  case Nil
  then show ?case by simp
next
  case (snoc x cs)
  obtain t ms where x: "x = (t, ms)" by (cases x)
  obtain sel L where f: "fold (\<lambda>(t, ms) s. dvd_longest_update s t ms) cs (None, 0) = (sel, L)"
    by (cases "fold (\<lambda>(t, ms) s. dvd_longest_update s t ms) cs (None, 0)")
  show ?case
  proof (cases "L \<le> ms")
    case True
    have res: "fold (\<lambda>(t, ms) s. dvd_longest_update s t ms) (cs @ [x]) (None, 0) = (Some t, ms)"
      using True by (simp add: f x, simp add: dvd_longest_update_def)
    have bound: "\<forall>k < length cs. snd (cs ! k) \<le> L"
      using snoc.IH unfolding f
      by (cases sel) (auto simp: last_longest_def intro: less_imp_le)
    have L0: "0 \<le> L" using snoc.IH unfolding f by (cases sel) auto
    have "last_longest (cs @ [x]) (length cs)"
      unfolding last_longest_def using bound True
      by (auto simp: nth_append x less_Suc_eq intro: order_trans)
    moreover have "(cs @ [x]) ! length cs = (t, ms)" by (simp add: x)
    ultimately show ?thesis using L0 True unfolding res by auto
  next
    case False
    have res: "fold (\<lambda>(t, ms) s. dvd_longest_update s t ms) (cs @ [x]) (None, 0) = (sel, L)"
      using False by (simp add: f x, simp add: dvd_longest_update_def)
    show ?thesis
    proof (cases sel)
      case None
      then show ?thesis using snoc.IH False unfolding f res
        by (auto simp: nth_append x less_Suc_eq)
    next
      case (Some t')
      then obtain j where j: "last_longest cs j" "cs ! j = (t', L)" "0 \<le> L"
        using snoc.IH unfolding f by auto
      have "last_longest (cs @ [x]) j"
        using j(1,2) False unfolding last_longest_def
        by (auto simp: nth_append x less_Suc_eq)
      moreover have "(cs @ [x]) ! j = (t', L)"
        using j(1,2) by (simp add: nth_append last_longest_def)
      ultimately show ?thesis using j(3) Some unfolding res by auto
    qed
  qed
qed

lemma dvd_scan_titles_last_longest:
  assumes "dvd_scan_titles disc tt num_vts n = Inr (Some t, L)"
  shows "\<exists>j. last_longest (dvd_candidates disc tt num_vts n) j \<and>
             dvd_candidates disc tt num_vts n ! j = (t, L)"
  using fold_longest_le [of "dvd_candidates disc tt num_vts n"]
    dvd_scan_titles_fold [OF assms, symmetric]
  by auto

section \<open>Properties of \<open>dvd_url_open\<close>\<close>

lemma dvd_title_length_Some:
  assumes "dvd_title_length disc tt n vts_nr t = Inr (Some ms)"
  shows "\<exists>ti. at_index (tt_srpt_t.title tt) t = Some ti \<and> 1 \<le> vts_ttn ti \<and> vts_ttn ti \<le> n"
  using assms
  by (auto simp: dvd_title_length_def split: option.splits if_splits)

lemma dvd_candidates_valid:
  assumes "(t, ms) \<in> set (dvd_candidates disc tt num_vts n)"
  shows "\<exists>ti. at_index (tt_srpt_t.title tt) t = Some ti \<and> 1 \<le> vts_ttn ti \<and> vts_ttn ti \<le> n"
proof -
  from assms obtain vts_nr where "dvd_title_length disc tt n vts_nr t = Inr (Some ms)"
    by (auto simp: dvd_candidates_def split: sum.splits option.splits)
  then show ?thesis by (rule dvd_title_length_Some)
qed

lemma dvd_scan_titles_valid:
  assumes "dvd_scan_titles disc tt num_vts n = Inr (Some t, L)"
  shows "\<exists>ti. at_index (tt_srpt_t.title tt) t = Some ti \<and> 1 \<le> vts_ttn ti \<and> vts_ttn ti \<le> n"
proof -
  obtain j where "last_longest (dvd_candidates disc tt num_vts n) j"
    and "dvd_candidates disc tt num_vts n ! j = (t, L)"
    using dvd_scan_titles_last_longest [OF assms] by blast
  then have "(t, L) \<in> set (dvd_candidates disc tt num_vts n)"
    by (metis last_longest_def nth_mem)
  then show ?thesis by (rule dvd_candidates_valid)
qed

lemma ff_dvd_set_program_chain_info_title_nr:
  assumes "ff_dvd_set_program_chain_info K ctx t p = Some ctx'"
  shows "title_nr ctx' = title_nr ctx"
  using assms
  by (auto simp: ff_dvd_set_program_chain_info_def Let_def split: Option.bind_splits if_splits)

text \<open>What a successful \<open>dvd_url_open\<close> has gone through.\<close>

lemma dvd_url_open_Inr:
  assumes "dvd_url_open K disc ctx = Inr ctx'"
  shows "\<exists>vmg st. DVDOpen2 disc \<and> ifoOpen_vmg disc = Some vmg \<and>
           title_nr ctx < nr_of_srpts (tt_srpt vmg) \<and>
           dvd_scan_titles disc (tt_srpt vmg) (nr_of_vtss vmg) (nr_of_srpts (tt_srpt vmg)) = Inr st \<and>
           (if title_nr ctx < 0 then fst st = Some (title_nr ctx')
            else title_nr ctx' = title_nr ctx)"
proof -
  have open2: "DVDOpen2 disc"
    using assms by (auto simp: dvd_url_open_def Let_def split: if_splits)
  then obtain vmg where vmg: "ifoOpen_vmg disc = Some vmg"
    using assms by (auto simp: dvd_url_open_def Let_def split: option.splits)
  let ?n = "nr_of_srpts (tt_srpt vmg)"
  have lt: "title_nr ctx < ?n"
    using assms open2 vmg by (auto simp: dvd_url_open_def Let_def split: if_splits)
  then obtain st where st: "dvd_scan_titles disc (tt_srpt vmg) (nr_of_vtss vmg) ?n = Inr st"
    using assms open2 vmg by (auto simp: dvd_url_open_def Let_def split: sum.splits)
  have "if title_nr ctx < 0 then fst st = Some (title_nr ctx') else title_nr ctx' = title_nr ctx"
    using assms open2 vmg lt st
    by (cases st)
       (auto simp: dvd_url_open_def Let_def
             split: option.splits if_splits
             dest!: ff_dvd_set_program_chain_info_title_nr)
  then show ?thesis using open2 vmg lt st by blast
qed

lemma dvd_url_open_invalid_title:
  assumes "DVDOpen2 disc" and "ifoOpen_vmg disc = Some vmg"
    and "nr_of_srpts (tt_srpt vmg) \<le> title_nr ctx"
  shows "dvd_url_open K disc ctx = Inl EINVAL"
  using assms by (simp add: dvd_url_open_def Let_def)

lemmas dvd_url_open_eval = dvd_url_open_def dvd_scan_titles_def dvd_scan_title_def
  dvd_title_length_def dvd_longest_update_def ff_dvd_get_title_set_length_def
  ff_dvd_set_program_chain_info_def bcd2int_def at_index_def ex_options_def ex_consts_def
  ex_plain_vts_def ex_plain_pgc_def selected_title_def

text \<open>
  C4, as the code has it. Let the disc and its video manager IFO open, and let title \<open>t\<close>
  of the title table have a \<open>vts_ttn\<close> outside \<open>[1, num_titles]\<close>. The scan skips the
  title: its loop body leaves the scan's state as it is (or returns \<open>ENOMEM\<close>, when the
  title set's IFO does not open). The automatic selection never selects the title. When
  the title is selected by its id, \<open>dvd_url_open\<close> fails: with the error of the scan, if
  the scan fails, and with \<open>AVERROR(EIO)\<close> otherwise.
\<close>

theorem dvd_url_open_dangling_title:
  assumes "DVDOpen2 disc" and "ifoOpen_vmg disc = Some vmg"
    and "n = nr_of_srpts (tt_srpt vmg)"
    and "at_index (tt_srpt_t.title (tt_srpt vmg)) t = Some ti"
    and "vts_ttn ti < 1 \<or> n < vts_ttn ti"
  shows "(dvd_scan_title disc (tt_srpt vmg) n vts_nr t st = Inr st \<or>
          dvd_scan_title disc (tt_srpt vmg) n vts_nr t st = Inl ENOMEM) \<and>
         (title_nr ctx < 0 \<longrightarrow> selected_title (dvd_url_open K disc ctx) \<noteq> Inr t) \<and>
         (title_nr ctx = t \<longrightarrow> 0 \<le> t \<longrightarrow> t < n \<longrightarrow>
            dvd_url_open K disc ctx =
              (case dvd_scan_titles disc (tt_srpt vmg) (nr_of_vtss vmg) n of
                 Inl e \<Rightarrow> Inl e | Inr s \<Rightarrow> Inl EIO))"
proof -
  have skip: "dvd_scan_title disc (tt_srpt vmg) n vts_nr t st = Inr st \<or>
              dvd_scan_title disc (tt_srpt vmg) n vts_nr t st = Inl ENOMEM"
    using assms(4,5)
    by (auto simp: dvd_scan_title_def dvd_title_length_def split: option.splits)
  have auto_sel: "selected_title (dvd_url_open K disc ctx) \<noteq> Inr t" if neg: "title_nr ctx < 0"
  proof
    assume "selected_title (dvd_url_open K disc ctx) = Inr t"
    then obtain ctx' where o: "dvd_url_open K disc ctx = Inr ctx'" and t: "title_nr ctx' = t"
      by (cases "dvd_url_open K disc ctx") (auto simp: selected_title_def)
    obtain vmg' s where "ifoOpen_vmg disc = Some vmg'"
      and sc: "dvd_scan_titles disc (tt_srpt vmg') (nr_of_vtss vmg') (nr_of_srpts (tt_srpt vmg')) = Inr s"
      and sel: "fst s = Some (title_nr ctx')"
      using dvd_url_open_Inr [OF o] neg by auto
    then have v: "vmg' = vmg" using assms(2) by simp
    obtain L where "s = (Some t, L)" using sel t by (cases s) auto
    then obtain ti' where "at_index (tt_srpt_t.title (tt_srpt vmg)) t = Some ti'"
      and "1 \<le> vts_ttn ti'" "vts_ttn ti' \<le> n"
      using dvd_scan_titles_valid [of disc "tt_srpt vmg" "nr_of_vtss vmg" n t L] sc v assms(3)
      by auto
    then show False using assms(4,5) by auto
  qed
  have explicit: "dvd_url_open K disc ctx =
              (case dvd_scan_titles disc (tt_srpt vmg) (nr_of_vtss vmg) n of
                 Inl e \<Rightarrow> Inl e | Inr s \<Rightarrow> Inl EIO)"
    if "title_nr ctx = t" "0 \<le> t" "t < n"
    using that assms
    by (auto simp: dvd_url_open_def Let_def split: sum.splits)
  show ?thesis using skip auto_sel explicit by blast
qed

theorem dvd_url_open_dangling_title_witness:
  "dvd_scan_title ex_dangling_disc (tt_srpt ex_dangling_vmg) 2 1 0 (None, 0) = Inr (None, 0) \<and>
   selected_title (dvd_url_open ex_consts ex_dangling_disc (ex_options (- 1) 0)) = Inr 1 \<and>
   dvd_url_open ex_consts ex_dangling_disc (ex_options 0 0) = Inl EIO"
proof -
  let ?ti = "\<lparr>nr_of_angles = 1, nr_of_ptts = 1, title_set_nr = 1, vts_ttn = 0\<rparr>"
  have a: "DVDOpen2 ex_dangling_disc" "ifoOpen_vmg ex_dangling_disc = Some ex_dangling_vmg"
    "2 = nr_of_srpts (tt_srpt ex_dangling_vmg)"
    "at_index (tt_srpt_t.title (tt_srpt ex_dangling_vmg)) 0 = Some ?ti"
    "vts_ttn ?ti < 1 \<or> 2 < vts_ttn ?ti"
    by (simp_all add: ex_dangling_disc_def ex_dangling_vmg_def at_index_def)
  have io: "ifoOpen ex_dangling_disc 1 \<noteq> None" by (simp add: ex_dangling_disc_def)
  have scan: "dvd_scan_titles ex_dangling_disc (tt_srpt ex_dangling_vmg)
                (nr_of_vtss ex_dangling_vmg) 2 = Inr (Some 1, 2700000)"
    by (simp add: dvd_url_open_eval ex_dangling_disc_def ex_dangling_vmg_def upto.simps)
  have sel: "selected_title (dvd_url_open ex_consts ex_dangling_disc (ex_options (- 1) 0)) = Inr 1"
    by (simp add: dvd_url_open_eval ex_dangling_disc_def ex_dangling_vmg_def upto.simps)
  note th = dvd_url_open_dangling_title [OF a]
  have "dvd_scan_title ex_dangling_disc (tt_srpt ex_dangling_vmg) 2 1 0 (None, 0) = Inr (None, 0)"
    using th [of 1 "(None, 0)" "ex_options 0 0" ex_consts] io
    by (auto simp: dvd_scan_title_def dvd_title_length_def a split: option.splits)
  moreover have "dvd_url_open ex_consts ex_dangling_disc (ex_options 0 0) = Inl EIO"
    using th [of 1 "(None, 0)" "ex_options 0 0" ex_consts] scan
    by (simp add: ex_options_def)
  ultimately show ?thesis using sel by simp
qed

text \<open>
  The claim as stated fails on that disc: title 0 is dangling and the scan meets it, yet
  both the automatic selection and the selection of title 1 open the disc, on title 1.
\<close>

theorem dvd_url_open_dangling_counterexample:
  "ifoOpen_vmg ex_dangling_disc = Some ex_dangling_vmg \<and>
   vts_ttn (tt_srpt_t.title (tt_srpt ex_dangling_vmg) ! 0) < 1 \<and>
   selected_title (dvd_url_open ex_consts ex_dangling_disc (ex_options (- 1) 0)) = Inr 1 \<and>
   selected_title (dvd_url_open ex_consts ex_dangling_disc (ex_options 1 0)) = Inr 1"
  by (simp add: dvd_url_open_eval ex_dangling_disc_def ex_dangling_vmg_def upto.simps)

text \<open>
  C3 does not hold of the code. On the disc with one title of one angle, the request for
  angle 3 meets the condition of line 251, under which \<open>incorrect angle selected\<close> is
  logged as an error, and \<open>dvd_url_open\<close> nevertheless succeeds, with the cursor on the
  first cell of the title.
\<close>

theorem dvd_url_open_incorrect_angle:
  "dvd_incorrect_angle (ex_options (- 1) 3)
     \<lparr>nr_of_angles = 1, nr_of_ptts = 1, title_set_nr = 1, vts_ttn = 1\<rparr> \<and>
   dvd_url_open ex_consts ex_plain_disc (ex_options (- 1) 3) =
     Inr ((ex_cursor ex_plain_pgc 0 0 0 99)
            \<lparr>angle_nr := 3, vmg_ifo := ifoOpen_vmg ex_plain_disc,
              vts_ifo := Some ex_plain_vts\<rparr>)"
  by (simp add: dvd_incorrect_angle_def dvd_url_open_eval ex_plain_disc_def ex_cursor_def
        upto.simps)

section \<open>Properties of \<open>bluray_read_header\<close>\<close>

lemma bluray_scan_title_fold:
  assumes "bluray_scan_title disc i st = Inr st'"
  shows "st' = fold (\<lambda>(t, d) s. if snd s < d then (Some t, d) else s)
                 (case bd_get_title_info disc i of
                    Some info \<Rightarrow> [(idx info, duration info)] | None \<Rightarrow> []) st"
  using assms by (auto simp: bluray_scan_title_def split: option.splits if_splits)

lemma bluray_scan_fold:
  assumes "for_each (bluray_scan_title disc) [0..bd_get_titles disc - 1] st = Inr st'"
  shows "st' = fold (\<lambda>(t, d) s. if snd s < d then (Some t, d) else s) (bluray_candidates disc) st"
  unfolding bluray_candidates_def
  using _ assms
proof (rule for_each_fold)
  fix i s s' assume "bluray_scan_title disc i s = Inr s'"
  then show "s' = fold (\<lambda>(t, d) s. if snd s < d then (Some t, d) else s)
                    (case bd_get_title_info disc i of
                       Some info \<Rightarrow> [(idx info, duration info)] | None \<Rightarrow> []) s"
    by (rule bluray_scan_title_fold)
qed

text \<open>The scan with \<open><\<close> ends on the first title of maximum duration.\<close>

lemma fold_longest_less:
  "case fold (\<lambda>(t, d) s. if snd s < d then (Some t, d) else s) cs (None, 0) of
     (None, L) \<Rightarrow> L = 0 \<and> (\<forall>k < length cs. snd (cs ! k) \<le> 0)
   | (Some t, L) \<Rightarrow> \<exists>j. first_longest cs j \<and> cs ! j = (t, L) \<and> 0 < L"
proof (induction cs rule: rev_induct)
  case Nil
  then show ?case by simp
next
  case (snoc x cs)
  let ?upd = "\<lambda>(t, d) s. if snd s < d then (Some t, d) else s"
  obtain t ms where x: "x = (t, ms)" by (cases x)
  obtain sel L where f: "fold ?upd cs (None, 0) = (sel, L)"
    by (cases "fold ?upd cs (None, 0)")
  have bound: "\<forall>k < length cs. snd (cs ! k) \<le> L"
    using snoc.IH unfolding f by (cases sel) (auto simp: first_longest_def)
  have L0: "0 \<le> L" using snoc.IH unfolding f by (cases sel) auto
  show ?case
  proof (cases "L < ms")
    case True
    have res: "fold ?upd (cs @ [x]) (None, 0) = (Some t, ms)"
      using True by (simp add: f x)
    have "first_longest (cs @ [x]) (length cs)"
      unfolding first_longest_def using bound True
      by (auto simp: nth_append x less_Suc_eq intro: order_trans less_imp_le le_less_trans)
    moreover have "(cs @ [x]) ! length cs = (t, ms)" by (simp add: x)
    ultimately show ?thesis using L0 True unfolding res by auto
  next
    case False
    have res: "fold ?upd (cs @ [x]) (None, 0) = (sel, L)"
      using False by (simp add: f x)
    show ?thesis
    proof (cases sel)
      case None
      then show ?thesis using snoc.IH False unfolding f res
        by (auto simp: nth_append x less_Suc_eq)
    next
      case (Some t')
      then obtain j where j: "first_longest cs j" "cs ! j = (t', L)" "0 < L"
        using snoc.IH unfolding f by auto
      have "first_longest (cs @ [x]) j"
        using j(1,2) False unfolding first_longest_def
        by (auto simp: nth_append x less_Suc_eq)
      moreover have "(cs @ [x]) ! j = (t', L)"
        using j(1,2) by (simp add: nth_append first_longest_def)
      ultimately show ?thesis using j(3) Some unfolding res by auto
    qed
  qed
qed

text \<open>What a \<open>bluray_read_header\<close> that reaches line 223 has gone through.\<close>

lemma bluray_read_header_Inr:
  assumes "bluray_read_header disc ctx = Inr ctx'"
  shows "\<exists>st. for_each (bluray_scan_title disc) [0..bd_get_titles disc - 1] (None, 0) = Inr st \<and>
           title ctx' =
             (if title ctx < 0
              then (if 0 \<le> bd_get_main_title disc then bd_get_main_title disc else the (fst st))
              else title ctx) \<and>
           (title ctx < 0 \<longrightarrow> bd_get_main_title disc < 0 \<longrightarrow> fst st \<noteq> None) \<and>
           0 < bd_select_title disc (title ctx')"
proof -
  have pre: "avformat_alloc_context disc" "av_find_input_format disc" "bd_open_stream disc \<noteq> 0"
    "\<not> bd_get_titles disc < 1"
    using assms by (auto simp: bluray_read_header_def Let_def split: if_splits)
  obtain st where st: "for_each (bluray_scan_title disc) [0..bd_get_titles disc - 1] (None, 0) = Inr st"
    using assms pre by (auto simp: bluray_read_header_def Let_def split: sum.splits)
  have "title ctx' =
             (if title ctx < 0
              then (if 0 \<le> bd_get_main_title disc then bd_get_main_title disc else the (fst st))
              else title ctx) \<and>
           (title ctx < 0 \<longrightarrow> bd_get_main_title disc < 0 \<longrightarrow> fst st \<noteq> None) \<and>
           0 < bd_select_title disc (title ctx')"
    using assms pre st
    by (cases st)
       (auto simp: bluray_read_header_def Let_def split: option.splits if_splits)
  then show ?thesis using st by blast
qed

lemma bluray_read_header_explicit:
  assumes "avformat_alloc_context disc" and "av_find_input_format disc"
    and "bd_open_stream disc \<noteq> 0" and "1 \<le> bd_get_titles disc"
    and "for_each (bluray_scan_title disc) [0..bd_get_titles disc - 1] (None, 0) = Inr st"
    and "0 \<le> title ctx"
  shows "bluray_read_header disc ctx =
           (if bd_select_title disc (title ctx) \<le> 0 then Inl EIO
            else case bd_get_title_info disc (title ctx) of
                   None \<Rightarrow> Inl Undefined
                 | Some info \<Rightarrow>
                     if bd_select_playlist disc (playlist info) \<le> 0 then Inl EIO
                     else Inr (ctx\<lparr>bd := bd_init disc\<rparr>))"
  using assms by (cases st) (simp add: bluray_read_header_def Let_def)

lemmas bluray_read_header_eval = bluray_read_header_def bluray_scan_title_def
  ex_bluray_def ex_bluray_main_def ex_bluray_ctx_def

section \<open>Title selection at open time\<close>

text \<open>
  C7, as the code has it. An id of 0 or more selects a title explicitly. On the DVD path,
  once the disc and its video manager IFO are open, an id that is not below the number of
  titles makes \<open>dvd_url_open\<close> fail with \<open>AVERROR(EINVAL)\<close>. The Blu-ray path has no
  check of its own: once the titles are listed, \<open>bluray_read_header\<close> hands the id to
  \<open>bd_select_title\<close>, fails with \<open>AVERROR(EIO)\<close> when that call fails, and goes on to
  select the title's playlist otherwise.
\<close>

theorem explicit_title_validation:
  "(DVDOpen2 disc \<and> ifoOpen_vmg disc = Some vmg \<and> nr_of_srpts (tt_srpt vmg) \<le> title_nr ctx \<longrightarrow>
      dvd_url_open K disc ctx = Inl EINVAL) \<and>
   (avformat_alloc_context bdisc \<and> av_find_input_format bdisc \<and> bd_open_stream bdisc \<noteq> 0 \<and>
    1 \<le> bd_get_titles bdisc \<and>
    for_each (bluray_scan_title bdisc) [0..bd_get_titles bdisc - 1] (None, 0) = Inr st \<and>
    0 \<le> title bctx \<longrightarrow>
      bluray_read_header bdisc bctx =
        (if bd_select_title bdisc (title bctx) \<le> 0 then Inl EIO
         else case bd_get_title_info bdisc (title bctx) of
                None \<Rightarrow> Inl Undefined
              | Some info \<Rightarrow>
                  if bd_select_playlist bdisc (playlist info) \<le> 0 then Inl EIO
                  else Inr (bctx\<lparr>bd := bd_init bdisc\<rparr>)))"
  using dvd_url_open_invalid_title [of disc vmg ctx K]
    bluray_read_header_explicit [of bdisc st bctx]
  by blast

theorem explicit_title_validation_witness:
  "dvd_url_open ex_consts ex_dangling_disc (ex_options 2 0) = Inl EINVAL \<and>
   bluray_read_header ex_bluray (ex_bluray_ctx 5) = Inl EIO \<and>
   bluray_read_header ex_bluray (ex_bluray_ctx 1) = Inr (ex_bluray_ctx 1)"
proof -
  have d: "DVDOpen2 ex_dangling_disc \<and> ifoOpen_vmg ex_dangling_disc = Some ex_dangling_vmg \<and>
           nr_of_srpts (tt_srpt ex_dangling_vmg) \<le> title_nr (ex_options 2 0)"
    by (simp add: ex_dangling_disc_def ex_dangling_vmg_def ex_options_def)
  have scan: "for_each (bluray_scan_title ex_bluray) [0..bd_get_titles ex_bluray - 1] (None, 0)
                = Inr (Some 0, 324000000)"
    by (simp add: bluray_scan_title_def ex_bluray_def upto.simps)
  have b: "avformat_alloc_context ex_bluray \<and> av_find_input_format ex_bluray \<and>
           bd_open_stream ex_bluray \<noteq> 0 \<and> 1 \<le> bd_get_titles ex_bluray"
    by (simp add: ex_bluray_def)
  have t: "0 \<le> title (ex_bluray_ctx 5)" "0 \<le> title (ex_bluray_ctx 1)"
    by (simp_all add: ex_bluray_ctx_def)
  have "dvd_url_open ex_consts ex_dangling_disc (ex_options 2 0) = Inl EINVAL"
    using explicit_title_validation
            [of ex_dangling_disc ex_dangling_vmg "ex_options 2 0" ex_consts ex_bluray
                "(Some 0, 324000000)" "ex_bluray_ctx 5"] d
    by blast
  moreover have "bluray_read_header ex_bluray (ex_bluray_ctx 5) = Inl EIO"
    using explicit_title_validation
            [of ex_dangling_disc ex_dangling_vmg "ex_options 2 0" ex_consts ex_bluray
                "(Some 0, 324000000)" "ex_bluray_ctx 5"] b scan t(1)
    by (simp add: ex_bluray_def ex_bluray_ctx_def)
  moreover have "bluray_read_header ex_bluray (ex_bluray_ctx 1) = Inr (ex_bluray_ctx 1)"
    using explicit_title_validation
            [of ex_dangling_disc ex_dangling_vmg "ex_options 2 0" ex_consts ex_bluray
                "(Some 0, 324000000)" "ex_bluray_ctx 1"] b scan t(2)
    by (simp add: ex_bluray_def ex_bluray_ctx_def)
  ultimately show ?thesis by simp
qed

text \<open>
  The claim as stated fails on the Blu-ray path: with the id 5 on the disc of two titles
  the open fails, but with \<open>AVERROR(EIO)\<close>, the code of an I/O failure, and not with the
  \<open>AVERROR(EINVAL)\<close> the DVD path returns for an id out of range.
\<close>

theorem explicit_title_validation_counterexample:
  "bd_get_titles ex_bluray \<le> title (ex_bluray_ctx 5) \<and>
   bluray_read_header ex_bluray (ex_bluray_ctx 5) = Inl EIO \<and>
   dvd_url_open ex_consts ex_dangling_disc (ex_options 2 0) = Inl EINVAL \<and>
   EIO \<noteq> EINVAL"
  by (simp add: bluray_read_header_eval dvd_url_open_def ex_dangling_disc_def
        ex_dangling_vmg_def ex_options_def upto.simps)

text \<open>
  C2, as the code has it. When no title id is given (the id is negative) and
  \<open>dvd_url_open\<close> succeeds, the selected title is the last title of maximum length in
  the order of the scan, among the titles whose length the scan computes: the scan goes
  through the title sets in ascending order and, within a title set, through its titles
  by ascending index, and it passes over the titles it skips. When no title id is given
  and \<open>bluray_read_header\<close> gets as far as the selection of the playlist, the selected
  title is the main title libbluray declares, if there is one (\<open>bd_get_main_title\<close> is
  not negative), and otherwise the \<open>idx\<close> of the first title of maximum duration in
  the order of libbluray's title list.
\<close>

theorem automatic_title_selection:
  "(dvd_url_open K disc ctx = Inr ctx' \<and> title_nr ctx < 0 \<longrightarrow>
      (\<exists>vmg j. ifoOpen_vmg disc = Some vmg \<and>
         last_longest
           (dvd_candidates disc (tt_srpt vmg) (nr_of_vtss vmg) (nr_of_srpts (tt_srpt vmg))) j \<and>
         fst (dvd_candidates disc (tt_srpt vmg) (nr_of_vtss vmg) (nr_of_srpts (tt_srpt vmg)) ! j)
           = title_nr ctx')) \<and>
   (bluray_read_header bdisc bctx = Inr bctx' \<and> title bctx < 0 \<longrightarrow>
      (0 \<le> bd_get_main_title bdisc \<longrightarrow> title bctx' = bd_get_main_title bdisc) \<and>
      (bd_get_main_title bdisc < 0 \<longrightarrow>
         (\<exists>j. first_longest (bluray_candidates bdisc) j \<and>
              fst (bluray_candidates bdisc ! j) = title bctx')))"
proof (intro conjI impI)
  assume a: "dvd_url_open K disc ctx = Inr ctx' \<and> title_nr ctx < 0"
  then obtain vmg st where vmg: "ifoOpen_vmg disc = Some vmg"
    and sc: "dvd_scan_titles disc (tt_srpt vmg) (nr_of_vtss vmg) (nr_of_srpts (tt_srpt vmg)) = Inr st"
    and sel: "fst st = Some (title_nr ctx')"
    using dvd_url_open_Inr [of K disc ctx ctx'] by auto
  obtain L where "st = (Some (title_nr ctx'), L)" using sel by (cases st) auto
  then obtain j where
    "last_longest (dvd_candidates disc (tt_srpt vmg) (nr_of_vtss vmg) (nr_of_srpts (tt_srpt vmg))) j"
    "dvd_candidates disc (tt_srpt vmg) (nr_of_vtss vmg) (nr_of_srpts (tt_srpt vmg)) ! j
       = (title_nr ctx', L)"
    using dvd_scan_titles_last_longest [of disc "tt_srpt vmg" "nr_of_vtss vmg"
            "nr_of_srpts (tt_srpt vmg)" "title_nr ctx'" L] sc
    by auto
  then show "\<exists>vmg j. ifoOpen_vmg disc = Some vmg \<and>
         last_longest
           (dvd_candidates disc (tt_srpt vmg) (nr_of_vtss vmg) (nr_of_srpts (tt_srpt vmg))) j \<and>
         fst (dvd_candidates disc (tt_srpt vmg) (nr_of_vtss vmg) (nr_of_srpts (tt_srpt vmg)) ! j)
           = title_nr ctx'"
    using vmg by (intro exI [of _ vmg] exI [of _ j]) simp
next
  assume a: "bluray_read_header bdisc bctx = Inr bctx' \<and> title bctx < 0"
    and m: "0 \<le> bd_get_main_title bdisc"
  show "title bctx' = bd_get_main_title bdisc"
    using bluray_read_header_Inr [of bdisc bctx bctx'] a m by auto
next
  assume a: "bluray_read_header bdisc bctx = Inr bctx' \<and> title bctx < 0"
    and m: "bd_get_main_title bdisc < 0"
  obtain st where sc: "for_each (bluray_scan_title bdisc) [0..bd_get_titles bdisc - 1] (None, 0) = Inr st"
    and t: "title bctx' = the (fst st)" and some: "fst st \<noteq> None"
    using bluray_read_header_Inr [of bdisc bctx bctx'] a m by auto
  obtain L where st: "st = (Some (title bctx'), L)" using t some by (cases st) auto
  have "fold (\<lambda>(t, d) s. if snd s < d then (Some t, d) else s) (bluray_candidates bdisc) (None, 0)
          = (Some (title bctx'), L)"
    using bluray_scan_fold [OF sc] st by simp
  then obtain j where "first_longest (bluray_candidates bdisc) j"
    "bluray_candidates bdisc ! j = (title bctx', L)"
    using fold_longest_less [of "bluray_candidates bdisc"] by auto
  then show "\<exists>j. first_longest (bluray_candidates bdisc) j \<and>
              fst (bluray_candidates bdisc ! j) = title bctx'"
    by (intro exI [of _ j]) simp
qed

theorem automatic_title_selection_witness:
  "selected_title (dvd_url_open ex_consts ex_two_sets_disc (ex_options (- 1) 0)) = Inr 0 \<and>
   dvd_candidates ex_two_sets_disc (tt_srpt ex_two_sets_vmg) 2 2 = [(1, 2700000), (0, 2700000)] \<and>
   last_longest [(1, 2700000), (0, 2700000)] 1 \<and>
   bluray_read_header ex_bluray (ex_bluray_ctx (- 1)) = Inr (ex_bluray_ctx 0) \<and>
   bluray_candidates ex_bluray = [(0, 324000000), (1, 324000000)] \<and>
   first_longest [(0, 324000000), (1, 324000000)] 0 \<and>
   bluray_read_header ex_bluray_main (ex_bluray_ctx (- 1)) = Inr (ex_bluray_ctx 1)"
proof -
  let ?ctx' = "(ex_cursor ex_plain_pgc 0 0 0 99)
                 \<lparr>dvd_title_file := Some 2, vmg_ifo := Some ex_two_sets_vmg,
                   vts_ifo := Some ex_plain_vts\<rparr>"
  have dvd: "dvd_url_open ex_consts ex_two_sets_disc (ex_options (- 1) 0) = Inr ?ctx'"
    by (simp add: dvd_url_open_eval ex_two_sets_disc_def ex_two_sets_vmg_def ex_cursor_def
          upto.simps)
  have cs: "dvd_candidates ex_two_sets_disc (tt_srpt ex_two_sets_vmg) 2 2
              = [(1, 2700000), (0, 2700000)]"
    by (simp add: dvd_candidates_def dvd_url_open_eval ex_two_sets_disc_def ex_two_sets_vmg_def
          upto.simps)
  have bd0: "bluray_read_header ex_bluray (ex_bluray_ctx (- 1)) = Inr (ex_bluray_ctx 0)"
    by (simp add: bluray_read_header_eval upto.simps)
  have bd1: "bluray_read_header ex_bluray_main (ex_bluray_ctx (- 1)) = Inr (ex_bluray_ctx 1)"
    by (simp add: bluray_read_header_eval upto.simps)
  have bcs: "bluray_candidates ex_bluray = [(0, 324000000), (1, 324000000)]"
    by (simp add: bluray_candidates_def ex_bluray_def upto.simps)
  have ll: "last_longest [(1, 2700000), (0, 2700000)] 1"
    by (simp add: last_longest_def less_Suc_eq)
  have fl: "first_longest [(0, 324000000), (1, 324000000)] 0"
    by (simp add: first_longest_def less_Suc_eq)
  have neg: "title_nr (ex_options (- 1) 0) < 0" "title (ex_bluray_ctx (- 1)) < 0"
    by (simp_all add: ex_options_def ex_bluray_ctx_def)
  have "title (ex_bluray_ctx 1) = bd_get_main_title ex_bluray_main"
    using automatic_title_selection
            [of ex_consts ex_two_sets_disc "ex_options (- 1) 0" ?ctx'
                ex_bluray_main "ex_bluray_ctx (- 1)" "ex_bluray_ctx 1"] bd1 neg
    by (simp add: ex_bluray_main_def ex_bluray_def)
  then show ?thesis
    using dvd cs ll bd0 bcs fl bd1 by (simp add: selected_title_def ex_cursor_def)
qed

text \<open>
  The claim as stated fails on the DVD path when the titles are not in the order of their
  title sets. Title 0 lies in title set 2 and title 1 in title set 1, each of 45 minutes:
  the last title of that length is title 1, and the selection takes title 0, which the scan
  reaches last.
\<close>

theorem automatic_title_selection_counterexample:
  "dvd_title_length ex_two_sets_disc (tt_srpt ex_two_sets_vmg) 2 2 0 = Inr (Some 2700000) \<and>
   dvd_title_length ex_two_sets_disc (tt_srpt ex_two_sets_vmg) 2 1 1 = Inr (Some 2700000) \<and>
   selected_title (dvd_url_open ex_consts ex_two_sets_disc (ex_options (- 1) 0)) = Inr 0"
  by (simp add: dvd_url_open_eval ex_two_sets_disc_def ex_two_sets_vmg_def upto.simps)

end
